theory Spec2Isabelle
  imports Complex_Main
begin

section \<open>Numeric cells\<close>

text \<open>
  The numeric columns \<open>quantity\<close>, \<open>price_per_unit\<close> and \<open>total_price\<close> are float64
  columns of a pandas DataFrame. A cell is modelled as an idealised float: a missing
  value (\<open>NaN\<close>), a finite number with exact rational arithmetic, or an infinity.
  Rounding error, overflow and the sign of zero are not modelled; what pandas does at a
  zero divisor is written out (a nonzero number divided by zero is an infinity, zero
  divided by zero is \<open>NaN\<close>), and so is what the infinities do in products and quotients.
  The rounding of float64 is modelled for the reconciler, in the section on float64
  arithmetic.
\<close>

datatype fl = NaN | Fin rat | PInf | NInf

definition isna :: "fl \<Rightarrow> bool" where
  "isna x = (x = NaN)"

definition notna :: "fl \<Rightarrow> bool" where
  "notna x = (\<not> isna x)"


fun fmul :: "fl \<Rightarrow> fl \<Rightarrow> fl" where
  "fmul (Fin a) (Fin b) = Fin (a * b)"
| "fmul (Fin a) PInf = (if a = 0 then NaN else if 0 < a then PInf else NInf)"
| "fmul (Fin a) NInf = (if a = 0 then NaN else if 0 < a then NInf else PInf)"
| "fmul PInf (Fin b) = (if b = 0 then NaN else if 0 < b then PInf else NInf)"
| "fmul NInf (Fin b) = (if b = 0 then NaN else if 0 < b then NInf else PInf)"
| "fmul PInf PInf = PInf"
| "fmul PInf NInf = NInf"
| "fmul NInf PInf = NInf"
| "fmul NInf NInf = PInf"
| "fmul NaN y = NaN"
| "fmul x NaN = NaN"

fun fdiv :: "fl \<Rightarrow> fl \<Rightarrow> fl" where
  "fdiv (Fin a) (Fin b) =
     (if b = 0 then (if a = 0 then NaN else if 0 < a then PInf else NInf)
      else Fin (a / b))"
| "fdiv (Fin a) PInf = Fin 0"
| "fdiv (Fin a) NInf = Fin 0"
| "fdiv PInf (Fin b) = (if 0 \<le> b then PInf else NInf)"
| "fdiv NInf (Fin b) = (if 0 \<le> b then NInf else PInf)"
| "fdiv PInf PInf = NaN"
| "fdiv PInf NInf = NaN"
| "fdiv NInf PInf = NaN"
| "fdiv NInf NInf = NaN"
| "fdiv NaN y = NaN"
| "fdiv x NaN = NaN"

text \<open>\<open>series > c\<close> for a constant \<open>c\<close>: a comparison with \<open>NaN\<close> is false.\<close>

fun fgt :: "fl \<Rightarrow> rat \<Rightarrow> bool" where
  "fgt (Fin a) c = (c < a)"
| "fgt PInf c = True"
| "fgt NInf c = False"
| "fgt NaN c = False"

section \<open>The record table\<close>

text \<open>
  A text cell is a string or missing. The table is the list of its rows in index order.
  The type of the date column changes in the date pass (from text to calendar dates), so
  the row type is polymorphic in it.
\<close>

type_synonym cell = "string option"

record 'd row =
  transaction_id :: cell
  customer_id :: cell
  product_id :: cell
  product_name :: cell
  quantity :: fl
  price_per_unit :: fl
  total_price :: fl
  transaction_date :: 'd

text \<open>
  \<open>df.loc[mask, col] = f(df.loc[mask])\<close>: the rows selected by a boolean mask are
  updated, the others are left as they are.
\<close>

definition loc_update :: "bool list \<Rightarrow> ('r \<Rightarrow> 'r) \<Rightarrow> 'r list \<Rightarrow> 'r list" where
  "loc_update msk f df = map (\<lambda>(b, r). if b then f r else r) (zip msk df)"

section \<open>Missing-value repair (\<open>_handle_missing_values\<close>)\<close>

definition handle_missing_values :: "'d row list \<Rightarrow> 'd row list" where
  "handle_missing_values df =
     (let mask_p = map (\<lambda>r. isna (price_per_unit r) \<and> notna (quantity r) \<and> notna (total_price r)) df;
          df1 = loc_update mask_p
                  (\<lambda>r. r\<lparr>price_per_unit := fdiv (total_price r) (quantity r)\<rparr>) df;
          mask_q = map (\<lambda>r. isna (quantity r) \<and> notna (price_per_unit r) \<and> notna (total_price r)) df1;
          df2 = loc_update mask_q
                  (\<lambda>r. r\<lparr>quantity := fdiv (total_price r) (price_per_unit r)\<rparr>) df1;
          mask_t = map (\<lambda>r. isna (total_price r) \<and> notna (quantity r) \<and> notna (price_per_unit r)) df2;
          df3 = loc_update mask_t
                  (\<lambda>r. r\<lparr>total_price := fmul (quantity r) (price_per_unit r)\<rparr>) df2
      in filter (\<lambda>r. notna (price_per_unit r) \<and> notna (quantity r) \<and> notna (total_price r)) df3)"

text \<open>
  The repair of one record in the words of the specification: the three repairs are
  tried in the order price, quantity, total, each reading the fields of the record as it
  came in; a record that still has an undefined field afterwards is dropped.
\<close>

definition keep_defined :: "'d row \<Rightarrow> 'd row option" where
  "keep_defined r =
     (if notna (price_per_unit r) \<and> notna (quantity r) \<and> notna (total_price r)
      then Some r else None)"

definition repair_record :: "'d row \<Rightarrow> 'd row option" where
  "repair_record r =
     (let q = quantity r; p = price_per_unit r; t = total_price r in
      if isna p \<and> notna q \<and> notna t then keep_defined (r\<lparr>price_per_unit := fdiv t q\<rparr>)
      else if isna q \<and> notna p \<and> notna t then keep_defined (r\<lparr>quantity := fdiv t p\<rparr>)
      else if isna t \<and> notna q \<and> notna p then keep_defined (r\<lparr>total_price := fmul q p\<rparr>)
      else keep_defined r)"

definition missing_count :: "'d row \<Rightarrow> nat" where
  "missing_count r =
     (if isna (quantity r) then 1 else 0) + (if isna (price_per_unit r) then 1 else 0)
       + (if isna (total_price r) then 1 else 0)"

definition nonzero_finite :: "fl \<Rightarrow> bool" where
  "nonzero_finite x = (case x of Fin a \<Rightarrow> a \<noteq> 0 | _ \<Rightarrow> False)"

section \<open>Strings\<close>

text \<open>
  Python strings are modelled as ASCII strings. \<open>isspace\<close> is \<open>str.isspace\<close> on one
  character (tab to carriage return, the four separators 28 to 31, and the space);
  \<open>strip\<close>, \<open>lower\<close> and \<open>title\<close> are the methods of the same names.
\<close>

datatype error = TypeError | ValueError | CastError

definition isspace :: "char \<Rightarrow> bool" where
  "isspace c = (let n = (of_char c :: nat) in (9 \<le> n \<and> n \<le> 13) \<or> (28 \<le> n \<and> n \<le> 32))"

definition is_upper :: "char \<Rightarrow> bool" where
  "is_upper c = (let n = (of_char c :: nat) in 65 \<le> n \<and> n \<le> 90)"

definition is_lower :: "char \<Rightarrow> bool" where
  "is_lower c = (let n = (of_char c :: nat) in 97 \<le> n \<and> n \<le> 122)"

definition is_cased :: "char \<Rightarrow> bool" where
  "is_cased c = (is_upper c \<or> is_lower c)"

definition lower_char :: "char \<Rightarrow> char" where
  "lower_char c = (if is_upper c then char_of (of_char c + (32 :: nat)) else c)"

definition upper_char :: "char \<Rightarrow> char" where
  "upper_char c = (if is_lower c then char_of (of_char c - (32 :: nat)) else c)"

definition strip :: "string \<Rightarrow> string" where
  "strip s = rev (dropWhile isspace (rev (dropWhile isspace s)))"

definition lower :: "string \<Rightarrow> string" where
  "lower s = map lower_char s"

text \<open>
  \<open>str.title\<close>: a character that follows a cased character is lower-cased, any other
  character is upper-cased.
\<close>

fun title_from :: "bool \<Rightarrow> string \<Rightarrow> string" where
  "title_from previous_is_cased [] = []"
| "title_from previous_is_cased (c # cs) =
     (if previous_is_cased then lower_char c else upper_char c) # title_from (is_cased c) cs"

definition title :: "string \<Rightarrow> string" where
  "title s = title_from False s"

section \<open>Product name normalization (\<open>_normalize_product_names\<close>)\<close>

text \<open>
  The patterns of \<open>PRODUCT_MAPPING\<close> are sequences of literal characters, and one of
  them has an optional character class (\<open>[-\s]?\<close>). \<open>re_search\<close> is
  \<open>re.search(pattern, name, re.IGNORECASE)\<close> read as a truth value: the pattern matches
  at some position of the name, letters compared without case.
\<close>

datatype atom = Lit char | OptClass "char \<Rightarrow> bool"

fun match_here :: "atom list \<Rightarrow> string \<Rightarrow> bool" where
  "match_here [] s = True"
| "match_here (Lit c # ps) [] = False"
| "match_here (Lit c # ps) (x # xs) = (lower_char x = lower_char c \<and> match_here ps xs)"
| "match_here (OptClass P # ps) [] = match_here ps []"
| "match_here (OptClass P # ps) (x # xs) = ((P x \<and> match_here ps xs) \<or> match_here ps (x # xs))"

fun re_search :: "atom list \<Rightarrow> string \<Rightarrow> bool" where
  "re_search p [] = match_here p []"
| "re_search p (x # xs) = (match_here p (x # xs) \<or> re_search p xs)"

definition literal :: "string \<Rightarrow> atom list" where
  "literal s = map Lit s"

text \<open>The dictionary is iterated in insertion order, so it is an association list.\<close>

definition PRODUCT_MAPPING :: "(atom list \<times> string) list" where
  "PRODUCT_MAPPING =
     [(literal ''usb'' @ [OptClass (\<lambda>c. c = CHR ''-'' \<or> isspace c)] @ literal ''c'', ''USB-C Cable''),
      (literal ''usbc'', ''USB-C Cable''),
      (literal ''webcam'', ''Webcam''),
      (literal ''mouse'', ''Mouse''),
      (literal ''keyboard'', ''Keyboard''),
      (literal ''laptop'', ''Laptop''),
      (literal ''monitor'', ''Monitor''),
      (literal ''tablet'', ''Tablet''),
      (literal ''printer'', ''Printer''),
      (literal ''headphones'', ''Headphones''),
      (literal ''charger'', ''Charger''),
      (literal ''smartphone'', ''Smartphone'')]"

text \<open>The loop of \<open>normalize_product_name\<close> over the items of the mapping.\<close>

fun first_rule :: "(atom list \<times> string) list \<Rightarrow> string \<Rightarrow> string" where
  "first_rule [] name = title name"
| "first_rule ((pattern, replacement) # rules) name =
     (if re_search pattern name then replacement else first_rule rules name)"

text \<open>
  A missing name reaches \<open>re.search\<close> as a float, and \<open>re.search\<close> raises
  \<open>TypeError\<close> on anything that is not a string.
\<close>

definition normalize_product_name :: "cell \<Rightarrow> error + string" where
  "normalize_product_name name =
     (case name of None \<Rightarrow> Inl TypeError | Some s \<Rightarrow> Inr (first_rule PRODUCT_MAPPING s))"

text \<open>\<open>Series.apply\<close> with a function that may raise: the first exception ends the pass.\<close>

fun apply_rows :: "('a \<Rightarrow> error + 'b) \<Rightarrow> 'a list \<Rightarrow> error + 'b list" where
  "apply_rows f [] = Inr []"
| "apply_rows f (x # xs) =
     (case f x of
        Inl e \<Rightarrow> Inl e
      | Inr y \<Rightarrow> (case apply_rows f xs of Inl e \<Rightarrow> Inl e | Inr ys \<Rightarrow> Inr (y # ys)))"

text \<open>
  \<open>.str.strip().str.lower()\<close> leaves a missing name missing. The column is taken to have
  the object dtype, as it has when the table is read from text with at least one name.
\<close>

definition normalize_product_names :: "'d row list \<Rightarrow> error + 'd row list" where
  "normalize_product_names df =
     (let df1 = map (\<lambda>r. r\<lparr>product_name := map_option (\<lambda>s. lower (strip s)) (product_name r)\<rparr>) df
      in apply_rows
           (\<lambda>r. case normalize_product_name (product_name r) of
                   Inl e \<Rightarrow> Inl e
                 | Inr n \<Rightarrow> Inr (r\<lparr>product_name := Some n\<rparr>)) df1)"

text \<open>
  The normalizer in the words of the specification: the name is trimmed and
  lower-cased, the first rule of the ordered list whose pattern matches somewhere in it
  gives the canonical name, and without such a rule the result is the trimmed original
  in title case.
\<close>

definition canonical_name :: "string \<Rightarrow> string" where
  "canonical_name s =
     (case find (\<lambda>(pattern, canonical). re_search pattern (lower (strip s))) PRODUCT_MAPPING of
        Some (pattern, canonical) \<Rightarrow> canonical
      | None \<Rightarrow> title (strip s))"

section \<open>Date standardization (\<open>_standardize_dates\<close>)\<close>

text \<open>
  \<open>datetime.strptime\<close> is a library function. It is modelled for the directives the
  seven formats use, in the C locale: the format is turned into a regular expression
  (one group per directive, a run of whitespace for a blank, the other characters as
  they are), the first match of that expression against the start of the text is taken,
  text left over after the match is an error, and so is a day that the month does not
  have. \<open>None\<close> stands for the \<open>ValueError\<close> that the caller catches.

  A directive is matched as its regular expression is: \<open>match_directive\<close> lists the ways
  it can match a prefix of the text, in the order in which the alternatives of the
  expression are tried, each with the number read and the rest of the text.
\<close>

record date =
  year :: int
  month :: int
  day :: int

datatype directive = Dir_Y | Dir_m | Dir_d | Dir_y | Dir_B | Literal char | Whitespace

definition is_digit :: "char \<Rightarrow> bool" where
  "is_digit c = (let n = (of_char c :: nat) in 48 \<le> n \<and> n \<le> 57)"

definition digit_val :: "char \<Rightarrow> int" where
  "digit_val c = (if is_digit c then int (of_char c) - 48 else 0)"

definition digit_between :: "nat \<Rightarrow> nat \<Rightarrow> char \<Rightarrow> bool" where
  "digit_between lo hi c = (let n = (of_char c :: nat) in 48 + lo \<le> n \<and> n \<le> 48 + hi)"

definition one_char :: "(char \<Rightarrow> bool) \<Rightarrow> string \<Rightarrow> (int \<times> string) list" where
  "one_char P s = (case s of a # rest \<Rightarrow> if P a then [(digit_val a, rest)] else [] | _ \<Rightarrow> [])"

definition two_chars :: "(char \<Rightarrow> bool) \<Rightarrow> (char \<Rightarrow> bool) \<Rightarrow> string \<Rightarrow> (int \<times> string) list" where
  "two_chars P Q s =
     (case s of
        a # b # rest \<Rightarrow> if P a \<and> Q b then [(10 * digit_val a + digit_val b, rest)] else []
      | _ \<Rightarrow> [])"

definition four_digits :: "string \<Rightarrow> (int \<times> string) list" where
  "four_digits s =
     (case s of
        a # b # c # d # rest \<Rightarrow>
          if is_digit a \<and> is_digit b \<and> is_digit c \<and> is_digit d
          then [(1000 * digit_val a + 100 * digit_val b + 10 * digit_val c + digit_val d, rest)]
          else []
      | _ \<Rightarrow> [])"

text \<open>The full month names, in the order of the calendar.\<close>

definition month_names :: "string list" where
  "month_names =
     [''january'', ''february'', ''march'', ''april'', ''may'', ''june'', ''july'',
      ''august'', ''september'', ''october'', ''november'', ''december'']"

definition name_prefix :: "string \<Rightarrow> string \<Rightarrow> bool" where
  "name_prefix name s = (length name \<le> length s \<and> lower (take (length name) s) = name)"

definition match_month_name :: "string \<Rightarrow> (int \<times> string) list" where
  "match_month_name s =
     concat (map (\<lambda>(i, name). if name_prefix name s then [(int i + 1, drop (length name) s)] else [])
                 (enumerate 0 month_names))"

text \<open>\<open>\s+\<close> is greedy: the longest run of whitespace first, then the shorter ones.\<close>

definition match_whitespace :: "string \<Rightarrow> (int \<times> string) list" where
  "match_whitespace s =
     map (\<lambda>k. (0, drop k s)) (rev [1 ..< Suc (length (takeWhile isspace s))])"

fun match_directive :: "directive \<Rightarrow> string \<Rightarrow> (int \<times> string) list" where
  "match_directive Dir_Y s = four_digits s"
| "match_directive Dir_y s = two_chars is_digit is_digit s"
| "match_directive Dir_m s =
     two_chars (\<lambda>c. c = CHR ''1'') (digit_between 0 2) s
     @ two_chars (\<lambda>c. c = CHR ''0'') (digit_between 1 9) s
     @ one_char (digit_between 1 9) s"
| "match_directive Dir_d s =
     two_chars (\<lambda>c. c = CHR ''3'') (digit_between 0 1) s
     @ two_chars (digit_between 1 2) is_digit s
     @ two_chars (\<lambda>c. c = CHR ''0'') (digit_between 1 9) s
     @ one_char (digit_between 1 9) s
     @ two_chars (\<lambda>c. c = CHR '' '') (digit_between 1 9) s"
| "match_directive Dir_B s = match_month_name s"
| "match_directive (Literal c) s =
     (case s of a # rest \<Rightarrow> if lower_char a = lower_char c then [(0, rest)] else [] | _ \<Rightarrow> [])"
| "match_directive Whitespace s = match_whitespace s"

text \<open>
  All matches of a format against a prefix of the text, in the order of the
  backtracking search, each with the groups found and the text left over.
\<close>

fun match_format :: "directive list \<Rightarrow> string \<Rightarrow> ((directive \<times> int) list \<times> string) list" where
  "match_format [] s = [([], s)]"
| "match_format (d # ds) s =
     concat (map (\<lambda>(v, rest). map (\<lambda>(found, rest'). ((d, v) # found, rest')) (match_format ds rest))
                 (match_directive d s))"

definition set_group :: "date \<Rightarrow> directive \<times> int \<Rightarrow> date" where
  "set_group dt g =
     (case g of
        (Dir_Y, v) \<Rightarrow> dt\<lparr>year := v\<rparr>
      | (Dir_y, v) \<Rightarrow> dt\<lparr>year := (if v \<le> 68 then 2000 + v else 1900 + v)\<rparr>
      | (Dir_m, v) \<Rightarrow> dt\<lparr>month := v\<rparr>
      | (Dir_B, v) \<Rightarrow> dt\<lparr>month := v\<rparr>
      | (Dir_d, v) \<Rightarrow> dt\<lparr>day := v\<rparr>
      | _ \<Rightarrow> dt)"

definition is_leap :: "int \<Rightarrow> bool" where
  "is_leap y = (y mod 4 = 0 \<and> (y mod 100 \<noteq> 0 \<or> y mod 400 = 0))"

definition days_in_month :: "int \<Rightarrow> int \<Rightarrow> int" where
  "days_in_month y m =
     (if m = 2 then (if is_leap y then 29 else 28)
      else if m = 4 \<or> m = 6 \<or> m = 9 \<or> m = 11 then 30 else 31)"

definition strptime :: "string \<Rightarrow> directive list \<Rightarrow> date option" where
  "strptime date_string format =
     (case match_format format date_string of
        [] \<Rightarrow> None
      | (found, rest) # others \<Rightarrow>
          if rest \<noteq> [] then None
          else (let dt = foldl set_group \<lparr>year = 1900, month = 1, day = 1\<rparr> found in
                if 1 \<le> year dt \<and> year dt \<le> 9999 \<and> 1 \<le> month dt \<and> month dt \<le> 12
                   \<and> 1 \<le> day dt \<and> day dt \<le> days_in_month (year dt) (month dt)
                then Some dt else None))"

text \<open>
  The formats of \<open>parse_date\<close>, in its order: \<open>%Y-%m-%d\<close>, \<open>%Y/%m/%d\<close>, \<open>%d/%m/%Y\<close>,
  \<open>%m/%d/%Y\<close>, \<open>%B %d, %Y\<close>, \<open>%d-%m-%y\<close>, \<open>%m/%d/%y\<close>.
\<close>

definition formats :: "directive list list" where
  "formats =
     [[Dir_Y, Literal CHR ''-'', Dir_m, Literal CHR ''-'', Dir_d],
      [Dir_Y, Literal CHR ''/'', Dir_m, Literal CHR ''/'', Dir_d],
      [Dir_d, Literal CHR ''/'', Dir_m, Literal CHR ''/'', Dir_Y],
      [Dir_m, Literal CHR ''/'', Dir_d, Literal CHR ''/'', Dir_Y],
      [Dir_B, Whitespace, Dir_d, Literal CHR '','', Whitespace, Dir_Y],
      [Dir_d, Literal CHR ''-'', Dir_m, Literal CHR ''-'', Dir_y],
      [Dir_m, Literal CHR ''/'', Dir_d, Literal CHR ''/'', Dir_y]]"

text \<open>
  The loop over the formats: a format whose parse raises, or whose year is out of range,
  is passed over.
\<close>

fun try_formats :: "string \<Rightarrow> directive list list \<Rightarrow> date option" where
  "try_formats date_str [] = None"
| "try_formats date_str (fmt # fmts) =
     (case strptime date_str fmt of
        Some parsed_date \<Rightarrow>
          if 1900 \<le> year parsed_date \<and> year parsed_date \<le> 2030 then Some parsed_date
          else try_formats date_str fmts
      | None \<Rightarrow> try_formats date_str fmts)"

definition parse_date :: "cell \<Rightarrow> date option" where
  "parse_date date_str =
     (case date_str of
        None \<Rightarrow> None
      | Some s \<Rightarrow> if s = ''Invalid Date'' then None else try_formats s formats)"

text \<open>
  A format accepts a text when the text parses against it and the year it yields is
  in the range from 1900 to 2030.
\<close>

definition accepts :: "string \<Rightarrow> directive list \<Rightarrow> date option" where
  "accepts s fmt =
     (case strptime s fmt of
        Some d \<Rightarrow> if 1900 \<le> year d \<and> year d \<le> 2030 then Some d else None
      | None \<Rightarrow> None)"

definition with_date :: "'a row \<Rightarrow> 'b \<Rightarrow> 'b row" where
  "with_date r d =
     \<lparr>transaction_id = transaction_id r, customer_id = customer_id r,
      product_id = product_id r, product_name = product_name r, quantity = quantity r,
      price_per_unit = price_per_unit r, total_price = total_price r,
      transaction_date = d\<rparr>"

text \<open>
  After the pass the date column holds calendar dates; \<open>None\<close> is the \<open>NaN\<close> that
  \<open>parse_date\<close> returns for a text it cannot parse, and \<open>dropna\<close> removes those rows.
\<close>

definition standardize_dates :: "cell row list \<Rightarrow> date option row list" where
  "standardize_dates df =
     (let df1 = map (\<lambda>r. with_date r (parse_date (transaction_date r))) df
      in filter (\<lambda>r. transaction_date r \<noteq> None) df1)"

section \<open>Duplicate elimination (\<open>_remove_duplicates\<close>)\<close>

text \<open>
  \<open>drop_duplicates(subset=...)\<close> keeps a row unless an earlier row has the same values
  in the columns of the subset, which are all the columns but \<open>transaction_id\<close>.
\<close>

definition dedup_key :: "'d row \<Rightarrow> cell \<times> cell \<times> cell \<times> fl \<times> fl \<times> fl \<times> 'd" where
  "dedup_key r =
     (customer_id r, product_id r, product_name r, quantity r, price_per_unit r,
      total_price r, transaction_date r)"

fun drop_duplicates :: "('r \<Rightarrow> 'k) \<Rightarrow> 'k list \<Rightarrow> 'r list \<Rightarrow> 'r list" where
  "drop_duplicates key seen [] = []"
| "drop_duplicates key seen (r # rs) =
     (if key r \<in> set seen then drop_duplicates key seen rs
      else r # drop_duplicates key (key r # seen) rs)"

definition remove_duplicates :: "'d row list \<Rightarrow> 'd row list" where
  "remove_duplicates df = drop_duplicates dedup_key [] df"

text \<open>
  Two records are content-identical when they are equal on every column except
  \<open>transaction_id\<close>: giving one the identifier of the other makes them equal.
\<close>

definition content_identical :: "'d row \<Rightarrow> 'd row \<Rightarrow> bool" where
  "content_identical r r' = (r'\<lparr>transaction_id := transaction_id r\<rparr> = r)"

section \<open>Outlier and mismatch reconciliation (\<open>_handle_outliers\<close>)\<close>

text \<open>
  \<open>np.isclose(a, b, rtol=0, atol=atol)\<close>: two finite numbers are close when they differ
  by at most \<open>atol\<close>; an infinity is close to itself only, \<open>NaN\<close> to nothing.
  Here the difference and the tolerance are read exactly; \<open>isclose64\<close>, in the
  section on float64 arithmetic, reads them as numpy computes them.
\<close>

fun isclose :: "fl \<Rightarrow> fl \<Rightarrow> rat \<Rightarrow> bool" where
  "isclose (Fin a) (Fin b) atol = (\<bar>a - b\<bar> \<le> atol)"
| "isclose PInf PInf atol = True"
| "isclose NInf NInf atol = True"
| "isclose a b atol = False"

text \<open>\<open>rint\<close> rounds to the nearest integer, a half to the even neighbour.\<close>

definition rint :: "rat \<Rightarrow> int" where
  "rint x =
     (let f = \<lfloor>x\<rfloor>; d = x - of_int f in
      if d < 1 / 2 then f else if 1 / 2 < d then f + 1 else if even f then f else f + 1)"

text \<open>\<open>Series.round(decimals)\<close>: scale, round to an integer, scale back.\<close>

fun fround :: "nat \<Rightarrow> fl \<Rightarrow> fl" where
  "fround decimals (Fin x) = Fin (of_int (rint (x * 10 ^ decimals)) / 10 ^ decimals)"
| "fround decimals x = x"

text \<open>
  \<open>astype("Int64")\<close> of a float column: a missing value stays missing, an integral
  number in the range of 64-bit integers is kept, and anything else (an infinity, a
  number out of range or with a fraction) makes the cast raise. The class of that
  exception depends on the version of pandas; \<open>CastError\<close> stands for it.
\<close>

definition astype_Int64 :: "fl \<Rightarrow> error + fl" where
  "astype_Int64 x =
     (case x of
        NaN \<Rightarrow> Inr NaN
      | Fin a \<Rightarrow>
          if a = of_int \<lfloor>a\<rfloor> \<and> - (2 ^ 63) \<le> a \<and> a < 2 ^ 63 then Inr (Fin a) else Inl CastError
      | _ \<Rightarrow> Inl CastError)"

definition mismatch :: "'d row \<Rightarrow> bool" where
  "mismatch r = (\<not> isclose (total_price r) (fmul (quantity r) (price_per_unit r)) (1 / 100))"

text \<open>
  The correcting part of the pass, up to the last masked assignment. The masks are
  boolean columns; each is computed from the table as it is at that point and from the
  masks computed before it.
\<close>

definition correct_mismatches :: "'d row list \<Rightarrow> 'd row list" where
  "correct_mismatches df =
     (let mismatches = map mismatch df;
          conflict_mask = map (\<lambda>(m, r). m \<and> fgt (quantity r) 100 \<and> fgt (price_per_unit r) 1000)
                              (zip mismatches df);
          df1 = (if list_ex (\<lambda>b. b) conflict_mask
                 then loc_update conflict_mask
                        (\<lambda>r. r\<lparr>quantity := fdiv (total_price r) (price_per_unit r)\<rparr>) df
                 else df);
          mask_q = map (\<lambda>(m, r, c). m \<and> fgt (quantity r) 100 \<and> \<not> c)
                       (zip mismatches (zip df1 conflict_mask));
          df2 = loc_update mask_q
                  (\<lambda>r. r\<lparr>quantity := fdiv (total_price r) (price_per_unit r)\<rparr>) df1;
          mask_p = map (\<lambda>(m, r, c). m \<and> fgt (price_per_unit r) 1000 \<and> \<not> c)
                       (zip mismatches (zip df2 conflict_mask));
          df3 = loc_update mask_p
                  (\<lambda>r. r\<lparr>price_per_unit := fdiv (total_price r) (quantity r)\<rparr>) df2;
          mask_t = map (\<lambda>(m, q, p, c). m \<and> \<not> (q \<or> p \<or> c))
                       (zip mismatches (zip mask_q (zip mask_p conflict_mask)))
      in loc_update mask_t
           (\<lambda>r. r\<lparr>total_price := fmul (quantity r) (price_per_unit r)\<rparr>) df3)"

text \<open>The rounding of the three columns; the cast of the quantities may raise.\<close>

definition round_row :: "'d row \<Rightarrow> error + 'd row" where
  "round_row r =
     (case astype_Int64 (fround 0 (quantity r)) of
        Inl e \<Rightarrow> Inl e
      | Inr q \<Rightarrow> Inr (r\<lparr>quantity := q,
                       price_per_unit := fround 2 (price_per_unit r),
                       total_price := fround 2 (total_price r)\<rparr>))"

definition handle_outliers :: "'d row list \<Rightarrow> error + 'd row list" where
  "handle_outliers df = apply_rows round_row (correct_mismatches df)"




section \<open>The pipeline (\<open>clean_data\<close>)\<close>

text \<open>
  The final \<open>astype(int)\<close> of the quantities raises \<open>ValueError\<close> on a missing value;
  the casts of the two price columns to float change nothing.
\<close>

definition astype_int :: "'d row \<Rightarrow> error + 'd row" where
  "astype_int r = (if isna (quantity r) then Inl ValueError else Inr r)"

definition clean_data :: "cell row list \<Rightarrow> error + date option row list" where
  "clean_data df =
     (let df1 = handle_missing_values df in
      case normalize_product_names df1 of
        Inl e \<Rightarrow> Inl e
      | Inr df2 \<Rightarrow>
          (let df3 = standardize_dates df2;
               df4 = remove_duplicates df3 in
           case handle_outliers df4 of
             Inl e \<Rightarrow> Inl e
           | Inr df5 \<Rightarrow> apply_rows astype_int df5))"

text \<open>Rows for the examples.\<close>

definition mk_row :: "string \<Rightarrow> string \<Rightarrow> fl \<Rightarrow> fl \<Rightarrow> fl \<Rightarrow> 'd \<Rightarrow> 'd row" where
  "mk_row tid name q p t d =
     \<lparr>transaction_id = Some tid, customer_id = Some ''CUST001'', product_id = Some ''PROD001'',
      product_name = Some name, quantity = q, price_per_unit = p, total_price = t,
      transaction_date = d\<rparr>"

section \<open>The reconciler in float64 arithmetic\<close>

text \<open>
  At the threshold the flag of the reconciler depends on binary rounding: the text
  \<open>1.01\<close> is stored as the float64 nearest to it, which is above 1.01, and the
  tolerance \<open>0.01\<close> is the float64 nearest to 0.01. This section models the pass with
  every arithmetic operation rounded to float64, as numpy carries it out.

  \<open>float64 x\<close> is the binary64 number nearest to the rational \<open>x\<close>, a tie going to the
  even significand: with \<open>2 ^ e \<le> |x| < 2 ^ (e + 1)\<close>, it is the multiple of
  \<open>2 ^ (e - 52)\<close> nearest to \<open>x\<close>. The exponent is searched from 0, for at most 2200
  steps, which covers the binary64 range; overflow to an infinity and the subnormal
  numbers are not modelled.
\<close>

fun find_exp :: "nat \<Rightarrow> rat \<Rightarrow> int \<Rightarrow> int" where
  "find_exp 0 x e = e"
| "find_exp (Suc n) x e =
     (if x < 2 powi e then find_exp n x (e - 1)
      else if 2 powi (e + 1) \<le> x then find_exp n x (e + 1)
      else e)"

definition float64 :: "rat \<Rightarrow> rat" where
  "float64 x =
     (if x = 0 then 0
      else (let e = find_exp 2200 \<bar>x\<bar> 0; u = 2 powi (e - 52)
            in of_int (rint (x / u)) * u))"

definition rnd :: "fl \<Rightarrow> fl" where
  "rnd x = (case x of Fin a \<Rightarrow> Fin (float64 a) | _ \<Rightarrow> x)"

definition fmul64 :: "fl \<Rightarrow> fl \<Rightarrow> fl" where
  "fmul64 a b = rnd (fmul a b)"

definition fdiv64 :: "fl \<Rightarrow> fl \<Rightarrow> fl" where
  "fdiv64 a b = rnd (fdiv a b)"

text \<open>
  \<open>np.isclose(a, b, rtol=0, atol=atol)\<close> on float64: for finite numbers the test is
  \<open>abs(a - b) <= atol\<close>, with the difference rounded.
\<close>

fun isclose64 :: "fl \<Rightarrow> fl \<Rightarrow> rat \<Rightarrow> bool" where
  "isclose64 (Fin a) (Fin b) atol = (\<bar>float64 (a - b)\<bar> \<le> atol)"
| "isclose64 PInf PInf atol = True"
| "isclose64 NInf NInf atol = True"
| "isclose64 a b atol = False"

text \<open>The literal \<open>0.01\<close>.\<close>

definition atol64 :: rat where
  "atol64 = float64 (1 / 100)"

definition mismatch64 :: "'d row \<Rightarrow> bool" where
  "mismatch64 r =
     (\<not> isclose64 (total_price r) (fmul64 (quantity r) (price_per_unit r)) atol64)"

definition correct_mismatches64 :: "'d row list \<Rightarrow> 'd row list" where
  "correct_mismatches64 df =
     (let mismatches = map mismatch64 df;
          conflict_mask = map (\<lambda>(m, r). m \<and> fgt (quantity r) 100 \<and> fgt (price_per_unit r) 1000)
                              (zip mismatches df);
          df1 = (if list_ex (\<lambda>b. b) conflict_mask
                 then loc_update conflict_mask
                        (\<lambda>r. r\<lparr>quantity := fdiv64 (total_price r) (price_per_unit r)\<rparr>) df
                 else df);
          mask_q = map (\<lambda>(m, r, c). m \<and> fgt (quantity r) 100 \<and> \<not> c)
                       (zip mismatches (zip df1 conflict_mask));
          df2 = loc_update mask_q
                  (\<lambda>r. r\<lparr>quantity := fdiv64 (total_price r) (price_per_unit r)\<rparr>) df1;
          mask_p = map (\<lambda>(m, r, c). m \<and> fgt (price_per_unit r) 1000 \<and> \<not> c)
                       (zip mismatches (zip df2 conflict_mask));
          df3 = loc_update mask_p
                  (\<lambda>r. r\<lparr>price_per_unit := fdiv64 (total_price r) (quantity r)\<rparr>) df2;
          mask_t = map (\<lambda>(m, q, p, c). m \<and> \<not> (q \<or> p \<or> c))
                       (zip mismatches (zip mask_q (zip mask_p conflict_mask)))
      in loc_update mask_t
           (\<lambda>r. r\<lparr>total_price := fmul64 (quantity r) (price_per_unit r)\<rparr>) df3)"

text \<open>
  \<open>Series.round(decimals)\<close> on float64: to no decimals it is \<open>rint\<close>; otherwise the
  number is multiplied by the power of ten, rounded to an integer and divided again,
  each step in float64.
\<close>

fun fround64 :: "nat \<Rightarrow> fl \<Rightarrow> fl" where
  "fround64 decimals (Fin x) =
     (if decimals = 0 then Fin (of_int (rint x))
      else Fin (float64 (of_int (rint (float64 (x * 10 ^ decimals))) / 10 ^ decimals)))"
| "fround64 decimals x = x"

definition round_row64 :: "'d row \<Rightarrow> error + 'd row" where
  "round_row64 r =
     (case astype_Int64 (fround64 0 (quantity r)) of
        Inl e \<Rightarrow> Inl e
      | Inr q \<Rightarrow> Inr (r\<lparr>quantity := q,
                       price_per_unit := fround64 2 (price_per_unit r),
                       total_price := fround64 2 (total_price r)\<rparr>))"

text \<open>
  What the pass prints is returned with the table: the number of mismatches found,
  the number that remain after the rounding (the final check, which changes nothing),
  and the number of rows removed.
\<close>

record report =
  found :: nat
  remaining :: nat
  removed :: int

definition handle_outliers64 :: "'d row list \<Rightarrow> error + ('d row list \<times> report)" where
  "handle_outliers64 df =
     (let initial_count = length df;
          mismatches = map mismatch64 df in
      case apply_rows round_row64 (correct_mismatches64 df) of
        Inl e \<Rightarrow> Inl e
      | Inr df' \<Rightarrow>
          (let final_check = map mismatch64 df' in
           Inr (df', \<lparr>found = length (filter (\<lambda>b. b) mismatches),
                      remaining = length (filter (\<lambda>b. b) final_check),
                      removed = int initial_count - int (length df')\<rparr>)))"

text \<open>
  The correction of one record in the words of the specification, in float64
  arithmetic.
\<close>

definition reconcile_record64 :: "'d row \<Rightarrow> 'd row" where
  "reconcile_record64 r =
     (let q = quantity r; p = price_per_unit r; t = total_price r in
      if \<not> mismatch64 r then r
      else if fgt q 100 \<and> fgt p 1000 then r\<lparr>quantity := fdiv64 t p\<rparr>
      else if fgt q 100 then r\<lparr>quantity := fdiv64 t p\<rparr>
      else if fgt p 1000 then r\<lparr>price_per_unit := fdiv64 t q\<rparr>
      else r\<lparr>total_price := fmul64 q p\<rparr>)"

section \<open>Verification\<close>

lemma loc_update_map:
  "loc_update (map c df) f df = map (\<lambda>r. if c r then f r else r) df"
  by (induction df) (simp_all add: loc_update_def)

subsection \<open>Missing-value repair\<close>

lemma repair_row_steps:
  fixes r :: "'d row"
  defines "g1 \<equiv> (\<lambda>r::'d row.
              if isna (price_per_unit r) \<and> notna (quantity r) \<and> notna (total_price r)
              then r\<lparr>price_per_unit := fdiv (total_price r) (quantity r)\<rparr> else r)"
      and "g2 \<equiv> (\<lambda>r::'d row.
              if isna (quantity r) \<and> notna (price_per_unit r) \<and> notna (total_price r)
              then r\<lparr>quantity := fdiv (total_price r) (price_per_unit r)\<rparr> else r)"
      and "g3 \<equiv> (\<lambda>r::'d row.
              if isna (total_price r) \<and> notna (quantity r) \<and> notna (price_per_unit r)
              then r\<lparr>total_price := fmul (quantity r) (price_per_unit r)\<rparr> else r)"
  shows "keep_defined (g3 (g2 (g1 r))) = repair_record r"
  unfolding g1_def g2_def g3_def repair_record_def keep_defined_def Let_def notna_def
  by (cases "isna (price_per_unit r)"; cases "isna (quantity r)"; cases "isna (total_price r)")
     simp_all

lemma dropna_as_map_filter:
  "filter (\<lambda>r. notna (price_per_unit r) \<and> notna (quantity r) \<and> notna (total_price r)) (map g df)
     = List.map_filter (\<lambda>r. keep_defined (g r)) df"
  by (induction df) (simp_all add: List.map_filter_simps keep_defined_def)

lemma handle_missing_values_rows:
  "handle_missing_values df = List.map_filter repair_record df"
  unfolding handle_missing_values_def Let_def loc_update_map map_map comp_def
  by (simp only: dropna_as_map_filter repair_row_steps)

lemma repair_price:
  "missing_count r = 1 \<and> isna (price_per_unit r) \<longrightarrow>
     repair_record r = keep_defined (r\<lparr>price_per_unit := fdiv (total_price r) (quantity r)\<rparr>)"
  by (auto simp: missing_count_def repair_record_def notna_def split: if_splits)

lemma repair_quantity:
  "missing_count r = 1 \<and> isna (quantity r) \<longrightarrow>
     repair_record r = keep_defined (r\<lparr>quantity := fdiv (total_price r) (price_per_unit r)\<rparr>)"
  by (auto simp: missing_count_def repair_record_def notna_def split: if_splits)

lemma repair_total:
  "missing_count r = 1 \<and> isna (total_price r) \<longrightarrow>
     repair_record r = keep_defined (r\<lparr>total_price := fmul (quantity r) (price_per_unit r)\<rparr>)"
  by (auto simp: missing_count_def repair_record_def notna_def split: if_splits)

lemma repair_two_missing:
  "2 \<le> missing_count r \<longrightarrow> repair_record r = None"
  by (auto simp: missing_count_def repair_record_def notna_def keep_defined_def split: if_splits)

text \<open>
  C1. The repair pass treats every record on its own, by \<open>repair_record\<close>: a record
  with exactly one of quantity, price per unit and total price missing gets that field
  from the two fields it came with (price = total / quantity, quantity = total / price,
  total = quantity * price), so a price repaired in the pass never feeds the repair of a
  quantity; the record is kept when all three fields are defined afterwards and dropped
  otherwise; a record with two or more of the fields missing is dropped.
\<close>

theorem missing_value_repair:
  "handle_missing_values df = List.map_filter repair_record df
   \<and> (missing_count r = 1 \<and> isna (price_per_unit r) \<longrightarrow>
        repair_record r = keep_defined (r\<lparr>price_per_unit := fdiv (total_price r) (quantity r)\<rparr>))
   \<and> (missing_count r = 1 \<and> isna (quantity r) \<longrightarrow>
        repair_record r = keep_defined (r\<lparr>quantity := fdiv (total_price r) (price_per_unit r)\<rparr>))
   \<and> (missing_count r = 1 \<and> isna (total_price r) \<longrightarrow>
        repair_record r = keep_defined (r\<lparr>total_price := fmul (quantity r) (price_per_unit r)\<rparr>))
   \<and> (2 \<le> missing_count r \<longrightarrow> repair_record r = None)"
  using handle_missing_values_rows repair_price repair_quantity repair_total repair_two_missing
  by blast

text \<open>
  The table of the repository's test of this pass, with a fourth row that has two
  fields missing: the quantity of the second row and the price of the third are
  computed, the fourth row is dropped.
\<close>

theorem missing_value_repair_witness:
  "handle_missing_values
     [mk_row ''test1'' ''laptop'' (Fin 2) (Fin 100) (Fin 200) (Some ''2025-03-09''),
      mk_row ''test2'' ''mouse'' NaN (Fin 50) (Fin 100) (Some ''2025-03-10''),
      mk_row ''test3'' ''keyboard'' (Fin 1) NaN (Fin 75) (Some ''2025-03-11''),
      mk_row ''test4'' ''webcam'' NaN NaN (Fin 30) (Some ''2025-03-12'')]
   = [mk_row ''test1'' ''laptop'' (Fin 2) (Fin 100) (Fin 200) (Some ''2025-03-09''),
      mk_row ''test2'' ''mouse'' (Fin 2) (Fin 50) (Fin 100) (Some ''2025-03-10''),
      mk_row ''test3'' ''keyboard'' (Fin 1) (Fin 75) (Fin 75) (Some ''2025-03-11'')]
   \<and> missing_count (mk_row ''test2'' ''mouse'' NaN (Fin 50) (Fin 100) (Some ''2025-03-10'')) = 1
   \<and> repair_record (mk_row ''test2'' ''mouse'' NaN (Fin 50) (Fin 100) (Some ''2025-03-10''))
       = Some (mk_row ''test2'' ''mouse'' (Fin 2) (Fin 50) (Fin 100) (Some ''2025-03-10''))
   \<and> 2 \<le> missing_count (mk_row ''test4'' ''webcam'' NaN NaN (Fin 30) (Some ''2025-03-12''))
   \<and> repair_record (mk_row ''test4'' ''webcam'' NaN NaN (Fin 30) (Some ''2025-03-12'')) = None"
  using missing_value_repair
          [of "[mk_row ''test1'' ''laptop'' (Fin 2) (Fin 100) (Fin 200) (Some ''2025-03-09''),
                mk_row ''test2'' ''mouse'' NaN (Fin 50) (Fin 100) (Some ''2025-03-10''),
                mk_row ''test3'' ''keyboard'' (Fin 1) NaN (Fin 75) (Some ''2025-03-11''),
                mk_row ''test4'' ''webcam'' NaN NaN (Fin 30) (Some ''2025-03-12'')]"
              "mk_row ''test2'' ''mouse'' NaN (Fin 50) (Fin 100) (Some ''2025-03-10'')"]
        missing_value_repair
          [of "[]" "mk_row ''test4'' ''webcam'' NaN NaN (Fin 30) (Some ''2025-03-12'')"]
  by (simp add: List.map_filter_simps repair_record_def keep_defined_def missing_count_def
        mk_row_def isna_def notna_def Let_def)

subsection \<open>Survivors of the repair pass\<close>

lemma fmul_fdiv_cancel:
  "nonzero_finite q \<Longrightarrow> notna t \<Longrightarrow> fmul q (fdiv t q) = t"
  by (cases q; cases t) (auto simp: nonzero_finite_def notna_def isna_def)

lemma fmul_fdiv_cancel2:
  "nonzero_finite p \<Longrightarrow> notna t \<Longrightarrow> fmul (fdiv t p) p = t"
  by (cases p; cases t) (auto simp: nonzero_finite_def notna_def isna_def)

lemma repair_record_relation:
  assumes "repair_record r = Some r'"
  shows "missing_count r \<le> 1 \<and>
         (missing_count r = 1
            \<and> (isna (price_per_unit r) \<longrightarrow> nonzero_finite (quantity r))
            \<and> (isna (quantity r) \<longrightarrow> nonzero_finite (price_per_unit r))
          \<longrightarrow> total_price r' = fmul (quantity r') (price_per_unit r'))"
  using assms
  by (auto simp: repair_record_def keep_defined_def missing_count_def notna_def Let_def
        fmul_fdiv_cancel fmul_fdiv_cancel2 split: if_splits)

text \<open>
  C8, as the claim states it, fails: a record with quantity 0, total price 5 and no
  price has at most one field missing and survives the pass, with the price 5 / 0, an
  infinity; the product of its quantity and its price is then undefined, not 5.
\<close>

theorem zero_quantity_survivor_counterexample:
  "missing_count (mk_row ''t1'' ''mouse'' (Fin 0) NaN (Fin 5) (Some ''2025-03-09'')) \<le> 1
   \<and> handle_missing_values [mk_row ''t1'' ''mouse'' (Fin 0) NaN (Fin 5) (Some ''2025-03-09'')]
       = [mk_row ''t1'' ''mouse'' (Fin 0) PInf (Fin 5) (Some ''2025-03-09'')]
   \<and> total_price (mk_row ''t1'' ''mouse'' (Fin 0) PInf (Fin 5) (Some ''2025-03-09''))
       \<noteq> fmul (quantity (mk_row ''t1'' ''mouse'' (Fin 0) PInf (Fin 5) (Some ''2025-03-09'')))
                (price_per_unit (mk_row ''t1'' ''mouse'' (Fin 0) PInf (Fin 5) (Some ''2025-03-09'')))"
  by (simp add: handle_missing_values_def loc_update_def mk_row_def missing_count_def
        isna_def notna_def)

text \<open>
  C8, amended. Every record that survives the repair pass comes from a record of the
  input with at least two of the three fields present; when exactly one field was
  missing and the divisor of the repair formula, if it has one, was a finite number
  other than zero, the surviving record satisfies total = quantity * price exactly.
\<close>

theorem survivors_satisfy_relation:
  assumes "r' \<in> set (handle_missing_values df)"
  shows "\<exists>r \<in> set df. repair_record r = Some r' \<and> missing_count r \<le> 1 \<and>
         (missing_count r = 1
            \<and> (isna (price_per_unit r) \<longrightarrow> nonzero_finite (quantity r))
            \<and> (isna (quantity r) \<longrightarrow> nonzero_finite (price_per_unit r))
          \<longrightarrow> total_price r' = fmul (quantity r') (price_per_unit r'))"
proof -
  from assms obtain r where r: "r \<in> set df" "repair_record r = Some r'"
    by (auto simp: handle_missing_values_rows List.map_filter_def)
  with repair_record_relation [OF r(2)] show ?thesis by blast
qed

theorem survivors_satisfy_relation_witness:
  "mk_row ''test2'' ''mouse'' (Fin 2) (Fin 50) (Fin 100) (Some ''2025-03-10'')
     \<in> set (handle_missing_values
              [mk_row ''test2'' ''mouse'' NaN (Fin 50) (Fin 100) (Some ''2025-03-10'')])
   \<and> missing_count (mk_row ''test2'' ''mouse'' NaN (Fin 50) (Fin 100) (Some ''2025-03-10'')) = 1
   \<and> nonzero_finite (price_per_unit (mk_row ''test2'' ''mouse'' NaN (Fin 50) (Fin 100) (Some ''2025-03-10'')))
   \<and> total_price (mk_row ''test2'' ''mouse'' (Fin 2) (Fin 50) (Fin 100) (Some ''2025-03-10''))
       = fmul (quantity (mk_row ''test2'' ''mouse'' (Fin 2) (Fin 50) (Fin 100) (Some ''2025-03-10'')))
              (price_per_unit (mk_row ''test2'' ''mouse'' (Fin 2) (Fin 50) (Fin 100) (Some ''2025-03-10'')))"
proof -
  have h: "mk_row ''test2'' ''mouse'' (Fin 2) (Fin 50) (Fin 100) (Some ''2025-03-10'')
     \<in> set (handle_missing_values
              [mk_row ''test2'' ''mouse'' NaN (Fin 50) (Fin 100) (Some ''2025-03-10'')])"
    by (simp add: handle_missing_values_def loc_update_def mk_row_def isna_def notna_def)
  from survivors_satisfy_relation [OF h] show ?thesis using h
    by (simp add: mk_row_def missing_count_def isna_def notna_def nonzero_finite_def)
qed

subsection \<open>Duplicate elimination\<close>

lemma upt_Suc_shift: "[0..<Suc n] = 0 # map Suc [0..<n]"
  by (simp add: upt_conv_Cons map_Suc_upt del: upt_Suc)

lemma all_less_Suc_shift: "(\<forall>j<Suc i. Q j) \<longleftrightarrow> (Q 0 \<and> (\<forall>j<i. Q (Suc j)))"
  by (metis less_Suc_eq_0_disj Suc_less_eq zero_less_Suc)

lemma drop_duplicates_first:
  "drop_duplicates key seen df =
     map (\<lambda>i. df ! i)
       (filter (\<lambda>i. key (df ! i) \<notin> set seen \<and> (\<forall>j<i. key (df ! j) \<noteq> key (df ! i))) [0..<length df])"
proof (induction df arbitrary: seen)
  case Nil
  show ?case by simp
next
  case (Cons r rs)
  have shift: "[0..<length (r # rs)] = 0 # map Suc [0..<length rs]"
    using upt_Suc_shift [of "length rs"] by simp
  show ?case
  proof (cases "key r \<in> set seen")
    case True
    have "filter (\<lambda>i. key (rs ! i) \<notin> set seen \<and> (\<forall>j<i. key (rs ! j) \<noteq> key (rs ! i))) [0..<length rs]
        = filter (\<lambda>i. key (rs ! i) \<notin> set seen \<and> (\<forall>j<Suc i. key ((r # rs) ! j) \<noteq> key (rs ! i))) [0..<length rs]"
      using True by (intro filter_cong refl) (auto simp: all_less_Suc_shift)
    with True show ?thesis
      unfolding shift by (simp add: Cons.IH filter_map comp_def)
  next
    case False
    have "filter (\<lambda>i. key (rs ! i) \<notin> set (key r # seen) \<and> (\<forall>j<i. key (rs ! j) \<noteq> key (rs ! i))) [0..<length rs]
        = filter (\<lambda>i. key (rs ! i) \<notin> set seen \<and> (\<forall>j<Suc i. key ((r # rs) ! j) \<noteq> key (rs ! i))) [0..<length rs]"
      by (intro filter_cong refl) (auto simp: all_less_Suc_shift)
    with False show ?thesis
      unfolding shift by (simp add: Cons.IH filter_map comp_def)
  qed
qed

lemma dedup_key_eq:
  fixes r r' :: "'d row"
  shows "dedup_key r = dedup_key r' \<longleftrightarrow> content_identical r r'"
  by (cases r; cases r') (auto simp: dedup_key_def content_identical_def)

text \<open>
  C9. The duplicate eliminator keeps exactly the records that no earlier record of the
  table is content-identical to, in the order of the table and as they are (their
  \<open>transaction_id\<close> included); two records count as duplicates exactly when they are
  equal on every column except \<open>transaction_id\<close>.
\<close>

theorem duplicate_elimination:
  fixes df :: "'d row list"
  shows "remove_duplicates df =
     map (\<lambda>i. df ! i)
       (filter (\<lambda>i. \<forall>j<i. \<not> content_identical (df ! j) (df ! i)) [0..<length df])"
  unfolding remove_duplicates_def drop_duplicates_first
  by (simp add: dedup_key_eq)

text \<open>
  The table of the repository's test of this pass: the second row repeats the first
  under another identifier and is dropped.
\<close>

theorem duplicate_elimination_witness:
  "remove_duplicates
          [mk_row ''test1'' ''laptop'' (Fin 2) (Fin 100) (Fin 200) (Some ''2025-03-09''),
           mk_row ''test2'' ''laptop'' (Fin 2) (Fin 100) (Fin 200) (Some ''2025-03-09''),
           mk_row ''test3'' ''mouse'' (Fin 1) (Fin 50) (Fin 50) (Some ''2025-03-10'')]
        = [mk_row ''test1'' ''laptop'' (Fin 2) (Fin 100) (Fin 200) (Some ''2025-03-09''),
           mk_row ''test3'' ''mouse'' (Fin 1) (Fin 50) (Fin 50) (Some ''2025-03-10'')]
   \<and> content_identical
         (mk_row ''test1'' ''laptop'' (Fin 2) (Fin 100) (Fin 200) (Some ''2025-03-09''))
         (mk_row ''test2'' ''laptop'' (Fin 2) (Fin 100) (Fin 200) (Some ''2025-03-09''))
   \<and> \<not> content_identical
         (mk_row ''test1'' ''laptop'' (Fin 2) (Fin 100) (Fin 200) (Some ''2025-03-09''))
         (mk_row ''test3'' ''mouse'' (Fin 1) (Fin 50) (Fin 50) (Some ''2025-03-10''))"
proof -
  have u: "[0..<length [a, b, c]] = [0, Suc 0, Suc (Suc 0)]" for a b c :: "string option row"
    by (simp add: upt_conv_Cons)
  show ?thesis
    unfolding duplicate_elimination u
    by (simp add: content_identical_def mk_row_def less_Suc_eq)
qed

subsection \<open>Reconciliation\<close>

lemma loc_update_maps:
  "loc_update (map c df) f (map g df) = map (\<lambda>r. if c r then f (g r) else g r) df"
  by (induction df) (simp_all add: loc_update_def)

lemma loc_update_if_any:
  "(if list_ex (\<lambda>b. b) (map c df) then loc_update (map c df) f df else df)
     = map (\<lambda>r. if c r then f r else r) df"
proof (cases "list_ex (\<lambda>b. b) (map c df)")
  case True
  then show ?thesis by (simp add: loc_update_map)
next
  case False
  then have "\<forall>r \<in> set df. \<not> c r" by (auto simp: list_ex_iff)
  then have "map (\<lambda>r. if c r then f r else r) df = df"
    by (induction df) simp_all
  with False show ?thesis by simp
qed

lemma zip2_same: "zip (map f xs) xs = map (\<lambda>x. (f x, x)) xs"
  by (induction xs) simp_all

lemma zip3_same: "zip (map f xs) (zip (map g xs) (map h xs)) = map (\<lambda>x. (f x, g x, h x)) xs"
  by (induction xs) simp_all

lemma zip4_same:
  "zip (map f xs) (zip (map g xs) (zip (map h xs) (map k xs))) = map (\<lambda>x. (f x, g x, h x, k x)) xs"
  by (induction xs) simp_all



lemma apply_rows_length:
  "apply_rows f xs = Inr ys \<Longrightarrow> length ys = length xs"
  by (induction xs arbitrary: ys) (auto split: sum.splits)

lemma apply_rows_nth:
  "apply_rows f xs = Inr ys \<Longrightarrow> i < length xs \<Longrightarrow> f (xs ! i) = Inr (ys ! i)"
proof (induction xs arbitrary: ys i)
  case Nil
  then show ?case by simp
next
  case (Cons x xs)
  then show ?case by (cases i) (auto split: sum.splits)
qed


lemma floor_rat_numeral_div:
  "\<lfloor>(numeral a :: rat) / numeral b\<rfloor> = numeral a div numeral b"
  using floor_divide_of_int_eq [of "numeral a" "numeral b", where ?'a = rat] by simp

lemma floor_rat_one_div:
  "\<lfloor>(1 :: rat) / numeral b\<rfloor> = 1 div numeral b"
  using floor_divide_of_int_eq [of 1 "numeral b", where ?'a = rat] by simp

lemma floor_rat_neg_numeral_div:
  "\<lfloor>- (numeral a :: rat) / numeral b\<rfloor> = - numeral a div numeral b"
  using floor_divide_of_int_eq [of "- numeral a" "numeral b", where ?'a = rat] by simp

lemmas floor_rat = floor_rat_numeral_div floor_rat_one_div floor_rat_neg_numeral_div








subsection \<open>Product names\<close>

lemmas char_eval = char_of_eq_iff lower_char_def upper_char_def is_upper_def is_lower_def
  is_cased_def isspace_def

lemma lower_char_idem: "lower_char (lower_char c) = lower_char c"
  by (simp add: lower_char_def is_upper_def Let_def)

lemma upper_lower_char: "upper_char (lower_char c) = upper_char c"
  by (auto simp: lower_char_def upper_char_def is_upper_def is_lower_def Let_def)

lemma is_cased_lower_char: "is_cased (lower_char c) = is_cased c"
  by (auto simp: lower_char_def is_cased_def is_upper_def is_lower_def Let_def)

lemma title_from_lower: "title_from b (map lower_char s) = title_from b s"
  by (induction s arbitrary: b) (simp_all add: lower_char_idem upper_lower_char is_cased_lower_char)

lemma title_lower: "title (lower s) = title s"
  by (simp add: title_def lower_def title_from_lower)

lemma first_rule_find:
  "first_rule rules name =
     (case find (\<lambda>(pattern, canonical). re_search pattern name) rules of
        Some (pattern, canonical) \<Rightarrow> canonical
      | None \<Rightarrow> title name)"
  by (induction rules name rule: first_rule.induct) simp_all

lemma first_rule_canonical:
  "first_rule PRODUCT_MAPPING (lower (strip s)) = canonical_name s"
  by (simp add: first_rule_find canonical_name_def title_lower split: option.split)

lemma apply_rows_map:
  "(\<forall>x \<in> set xs. f x = Inr (g x)) \<Longrightarrow> apply_rows f xs = Inr (map g xs)"
  by (induction xs) simp_all

lemma normalize_present:
  assumes "\<forall>r \<in> set df. product_name r \<noteq> None"
  shows "normalize_product_names df
           = Inr (map (\<lambda>r. r\<lparr>product_name := map_option canonical_name (product_name r)\<rparr>) df)"
proof -
  let ?f = "\<lambda>r::'a row. case normalize_product_name (product_name r) of
                   Inl e \<Rightarrow> Inl e
                 | Inr n \<Rightarrow> Inr (r\<lparr>product_name := Some n\<rparr>)"
  let ?df1 = "map (\<lambda>r::'a row. r\<lparr>product_name := map_option (\<lambda>s. lower (strip s)) (product_name r)\<rparr>) df"
  let ?g = "\<lambda>r::'a row. r\<lparr>product_name := map_option (\<lambda>s. first_rule PRODUCT_MAPPING s) (product_name r)\<rparr>"
  have "\<forall>x \<in> set ?df1. ?f x = Inr (?g x)"
    using assms by (auto simp: normalize_product_name_def)
  then have "apply_rows ?f ?df1 = Inr (map ?g ?df1)"
    by (rule apply_rows_map)
  moreover have "map ?g ?df1 = map (\<lambda>r. r\<lparr>product_name := map_option canonical_name (product_name r)\<rparr>) df"
    by (simp add: option.map_comp comp_def first_rule_canonical)
  ultimately show ?thesis
    by (simp add: normalize_product_names_def)
qed

lemma canonical_fixed:
  "\<forall>(pattern, canonical) \<in> set PRODUCT_MAPPING. first_rule PRODUCT_MAPPING (lower (strip canonical)) = canonical"
  by (simp add: PRODUCT_MAPPING_def literal_def strip_def lower_def char_eval)


text \<open>
  C5. For a table whose product names are all present, the normalizer replaces every
  name by \<open>canonical_name\<close> of it: the canonical name of the first rule, in the order
  of the mapping, whose pattern matches somewhere in the trimmed, lower-cased name, and
  the trimmed original in title case when no rule matches.
\<close>

theorem product_name_first_rule:
  "(\<forall>r \<in> set df. product_name r \<noteq> None) \<longrightarrow>
     normalize_product_names df
       = Inr (map (\<lambda>r. r\<lparr>product_name := map_option canonical_name (product_name r)\<rparr>) df)"
  using normalize_present by blast

text \<open>
  The names of the repository's test of the mapping, a name that two patterns match
  (the rule for \<open>usb-c\<close> is before the rule for \<open>mouse\<close>), and a name that no
  pattern matches.
\<close>

theorem product_name_first_rule_witness:
  "product_name (mk_row ''t1'' ''  laptop  '' (Fin 1) (Fin 10) (Fin 10) (Some ''2025-03-09'')) \<noteq> None
   \<and> re_search (literal ''mouse'') ''usb c mouse''
   \<and> normalize_product_names
        [mk_row ''t1'' ''  laptop  '' (Fin 1) (Fin 10) (Fin 10) (Some ''2025-03-09''),
         mk_row ''t2'' ''wireless mouse'' (Fin 1) (Fin 10) (Fin 10) (Some ''2025-03-09''),
         mk_row ''t3'' ''USB-C'' (Fin 1) (Fin 10) (Fin 10) (Some ''2025-03-09''),
         mk_row ''t4'' ''usb c mouse'' (Fin 1) (Fin 10) (Fin 10) (Some ''2025-03-09''),
         mk_row ''t5'' '' desk LAMP'' (Fin 1) (Fin 10) (Fin 10) (Some ''2025-03-09'')]
      = Inr [mk_row ''t1'' ''Laptop'' (Fin 1) (Fin 10) (Fin 10) (Some ''2025-03-09''),
             mk_row ''t2'' ''Mouse'' (Fin 1) (Fin 10) (Fin 10) (Some ''2025-03-09''),
             mk_row ''t3'' ''USB-C Cable'' (Fin 1) (Fin 10) (Fin 10) (Some ''2025-03-09''),
             mk_row ''t4'' ''USB-C Cable'' (Fin 1) (Fin 10) (Fin 10) (Some ''2025-03-09''),
             mk_row ''t5'' ''Desk Lamp'' (Fin 1) (Fin 10) (Fin 10) (Some ''2025-03-09'')]"
proof -
  have names:
    "canonical_name ''  laptop  '' = ''Laptop''"
    "canonical_name ''wireless mouse'' = ''Mouse''"
    "canonical_name ''USB-C'' = ''USB-C Cable''"
    "canonical_name ''usb c mouse'' = ''USB-C Cable''"
    "canonical_name '' desk LAMP'' = ''Desk Lamp''"
    by (simp_all add: canonical_name_def PRODUCT_MAPPING_def literal_def strip_def lower_def
          title_def char_eval)
  have both: "re_search (literal ''mouse'') ''usb c mouse''"
    by (simp add: literal_def char_eval)
  show ?thesis
    using product_name_first_rule
            [of "[mk_row ''t1'' ''  laptop  '' (Fin 1) (Fin 10) (Fin 10) (Some ''2025-03-09''),
                  mk_row ''t2'' ''wireless mouse'' (Fin 1) (Fin 10) (Fin 10) (Some ''2025-03-09''),
                  mk_row ''t3'' ''USB-C'' (Fin 1) (Fin 10) (Fin 10) (Some ''2025-03-09''),
                  mk_row ''t4'' ''usb c mouse'' (Fin 1) (Fin 10) (Fin 10) (Some ''2025-03-09''),
                  mk_row ''t5'' '' desk LAMP'' (Fin 1) (Fin 10) (Fin 10) (Some ''2025-03-09'')]"]
          both
    by (simp add: mk_row_def names)
qed

text \<open>
  C6. Every canonical name of the rule table is a fixed point of the normalizer: a
  record whose product name is one of them comes out of the pass unchanged.
\<close>

theorem canonical_names_fixed:
  "\<forall>(pattern, canonical) \<in> set PRODUCT_MAPPING.
     normalize_product_names [r\<lparr>product_name := Some canonical\<rparr>]
       = Inr [r\<lparr>product_name := Some canonical\<rparr>]"
proof -
  have "normalize_product_names [r\<lparr>product_name := Some c\<rparr>]
          = Inr [r\<lparr>product_name := Some (canonical_name c)\<rparr>]" for c
    using normalize_present [of "[r\<lparr>product_name := Some c\<rparr>]"] by simp
  moreover have "\<forall>(pattern, canonical) \<in> set PRODUCT_MAPPING. canonical_name canonical = canonical"
    using canonical_fixed by (simp add: first_rule_canonical)
  ultimately show ?thesis by auto
qed

theorem canonical_names_fixed_witness:
  "(literal ''laptop'', ''Laptop'') \<in> set PRODUCT_MAPPING
   \<and> normalize_product_names
        [mk_row ''t1'' ''Laptop'' (Fin 1) (Fin 10) (Fin 10) (Some ''2025-03-09'')]
      = Inr [mk_row ''t1'' ''Laptop'' (Fin 1) (Fin 10) (Fin 10) (Some ''2025-03-09'')]"
proof -
  have m: "(literal ''laptop'', ''Laptop'') \<in> set PRODUCT_MAPPING"
    by (simp add: PRODUCT_MAPPING_def)
  have r: "(mk_row ''t1'' ''Laptop'' (Fin 1) (Fin 10) (Fin 10) (Some ''2025-03-09''))
             \<lparr>product_name := Some ''Laptop''\<rparr>
           = mk_row ''t1'' ''Laptop'' (Fin 1) (Fin 10) (Fin 10) (Some ''2025-03-09'')"
    by (simp add: mk_row_def)
  from canonical_names_fixed
         [of "mk_row ''t1'' ''Laptop'' (Fin 1) (Fin 10) (Fin 10) (Some ''2025-03-09'')"] m
  have "normalize_product_names
          [(mk_row ''t1'' ''Laptop'' (Fin 1) (Fin 10) (Fin 10) (Some ''2025-03-09''))
             \<lparr>product_name := Some ''Laptop''\<rparr>]
        = Inr [(mk_row ''t1'' ''Laptop'' (Fin 1) (Fin 10) (Fin 10) (Some ''2025-03-09''))
             \<lparr>product_name := Some ''Laptop''\<rparr>]"
    by blast
  with m show ?thesis by (simp only: r simp_thms)
qed

subsection \<open>Dates\<close>

lemma try_formats_step:
  "try_formats s (fmt # fmts) = (case accepts s fmt of Some d \<Rightarrow> Some d | None \<Rightarrow> try_formats s fmts)"
  by (simp add: accepts_def split: option.splits)

lemma try_formats_first:
  "try_formats s fmts = Some d \<longleftrightarrow>
     (\<exists>i<length fmts. accepts s (fmts ! i) = Some d \<and> (\<forall>j<i. accepts s (fmts ! j) = None))"
proof (induction fmts)
  case Nil
  show ?case by simp
next
  case (Cons fmt fmts)
  show ?case
  proof (cases "accepts s fmt")
    case None
    have "(\<exists>i<length (fmt # fmts). accepts s ((fmt # fmts) ! i) = Some d
              \<and> (\<forall>j<i. accepts s ((fmt # fmts) ! j) = None))
          \<longleftrightarrow> (\<exists>i<length fmts. accepts s (fmts ! i) = Some d \<and> (\<forall>j<i. accepts s (fmts ! j) = None))"
      (is "?L \<longleftrightarrow> ?R")
    proof
      assume ?L
      then obtain i where i: "i < length (fmt # fmts)" "accepts s ((fmt # fmts) ! i) = Some d"
        "\<forall>j<i. accepts s ((fmt # fmts) ! j) = None" by blast
      with None obtain k where k: "i = Suc k" by (cases i) auto
      with i have "k < length fmts" "accepts s (fmts ! k) = Some d" by auto
      moreover have "\<forall>j<k. accepts s (fmts ! j) = None"
        using i(3) k by (metis Suc_less_eq nth_Cons_Suc)
      ultimately show ?R by blast
    next
      assume ?R
      then obtain k where k: "k < length fmts" "accepts s (fmts ! k) = Some d"
        "\<forall>j<k. accepts s (fmts ! j) = None" by blast
      have "\<forall>j<Suc k. accepts s ((fmt # fmts) ! j) = None"
        using None k(3) by (auto simp: less_Suc_eq_0_disj)
      with k show ?L by (intro exI [of _ "Suc k"]) auto
    qed
    with None Cons.IH show ?thesis by (simp add: try_formats_step del: try_formats.simps)
  next
    case (Some d')
    have "(\<exists>i<length (fmt # fmts). accepts s ((fmt # fmts) ! i) = Some d
              \<and> (\<forall>j<i. accepts s ((fmt # fmts) ! j) = None)) \<longleftrightarrow> d' = d"
      (is "?L \<longleftrightarrow> _")
    proof
      assume ?L
      then obtain i where i: "i < length (fmt # fmts)" "accepts s ((fmt # fmts) ! i) = Some d"
        "\<forall>j<i. accepts s ((fmt # fmts) ! j) = None" by blast
      have "i = 0"
      proof (rule ccontr)
        assume "i \<noteq> 0"
        then have "accepts s ((fmt # fmts) ! 0) = None" using i(3) by blast
        with Some show False by simp
      qed
      with i(2) Some show "d' = d" by simp
    next
      assume "d' = d"
      with Some show ?L by (intro exI [of _ 0]) simp
    qed
    with Some show ?thesis by (simp add: try_formats_step del: try_formats.simps)
  qed
qed

lemma parse_date_first:
  "parse_date c = Some d \<longleftrightarrow>
     (\<exists>s. c = Some s \<and> s \<noteq> ''Invalid Date''
        \<and> (\<exists>i<length formats. accepts s (formats ! i) = Some d
               \<and> (\<forall>j<i. accepts s (formats ! j) = None)))"
  by (cases c) (simp_all add: parse_date_def try_formats_first)

lemma standardize_dates_rows:
  "standardize_dates df =
     map (\<lambda>r. with_date r (parse_date (transaction_date r)))
         (filter (\<lambda>r. parse_date (transaction_date r) \<noteq> None) df)"
  by (induction df) (simp_all add: standardize_dates_def with_date_def)


lemma try_formats_none:
  "try_formats s fmts = None \<longleftrightarrow> (\<forall>fmt \<in> set fmts. accepts s fmt = None)"
proof (induction fmts)
  case Nil
  show ?case by simp
next
  case (Cons fmt fmts)
  show ?case
    by (cases "accepts s fmt") (simp_all add: try_formats_step Cons.IH del: try_formats.simps)
qed

lemma parse_date_none:
  "parse_date c = None \<longleftrightarrow>
     c = None \<or> c = Some ''Invalid Date''
       \<or> (\<exists>s. c = Some s \<and> (\<forall>fmt \<in> set formats. accepts s fmt = None))"
proof (cases c)
  case None
  then show ?thesis by (simp add: parse_date_def)
next
  case (Some s)
  then show ?thesis by (simp add: parse_date_def try_formats_none)
qed

lemmas date_eval = strptime_def formats_def one_char_def two_chars_def four_digits_def
  digit_between_def is_digit_def digit_val_def match_month_name_def month_names_def
  name_prefix_def match_whitespace_def set_group_def is_leap_def days_in_month_def
  lower_def lower_char_def is_upper_def isspace_def char_of_eq_iff Let_def enumerate_eq_zip

text \<open>
  C4. \<open>parse_date\<close> returns a date exactly for a present text other than
  \<open>Invalid Date\<close> that some format of the fixed list accepts, and the date is the one
  of the first such format: every format before it either fails to parse the text or
  yields a year outside 1900 to 2030. It returns nothing for an absent value, for
  \<open>Invalid Date\<close> and for a text that no format accepts. The pass keeps, in order, the
  records whose date is returned, with that date, and drops the others.
\<close>

theorem first_accepting_format:
  "(parse_date c = Some d \<longleftrightarrow>
      (\<exists>s. c = Some s \<and> s \<noteq> ''Invalid Date''
         \<and> (\<exists>i<length formats. accepts s (formats ! i) = Some d
                \<and> (\<forall>j<i. accepts s (formats ! j) = None))))
   \<and> (parse_date c = None \<longleftrightarrow>
        c = None \<or> c = Some ''Invalid Date''
          \<or> (\<exists>s. c = Some s \<and> (\<forall>fmt \<in> set formats. accepts s fmt = None)))
   \<and> standardize_dates df =
        map (\<lambda>r. with_date r (parse_date (transaction_date r)))
            (filter (\<lambda>r. parse_date (transaction_date r) \<noteq> None) df)"
  by (intro conjI) (rule parse_date_first, rule parse_date_none, rule standardize_dates_rows)

text \<open>
  The dates of the specification's examples, and a text that the fourth format is the
  first to accept: \<open>03/25/2025\<close> has no month 25.
\<close>

theorem first_accepting_format_witness:
  "standardize_dates
     [mk_row ''test1'' ''Laptop'' (Fin 2) (Fin 100) (Fin 200) (Some ''2025-03-09''),
      mk_row ''test2'' ''Mouse'' (Fin 1) (Fin 50) (Fin 50) (Some ''Invalid Date''),
      mk_row ''test3'' ''USB-C Cable'' (Fin 3) (Fin 25) (Fin 75) (Some ''2025/03/10''),
      mk_row ''test4'' ''Webcam'' (Fin 1) (Fin 40) (Fin 40) (Some ''1850-03-09''),
      mk_row ''test5'' ''Tablet'' (Fin 1) (Fin 90) (Fin 90) None,
      mk_row ''test6'' ''Printer'' (Fin 1) (Fin 80) (Fin 80) (Some ''03/25/2025'')]
   = [mk_row ''test1'' ''Laptop'' (Fin 2) (Fin 100) (Fin 200) (Some \<lparr>year = 2025, month = 3, day = 9\<rparr>),
      mk_row ''test3'' ''USB-C Cable'' (Fin 3) (Fin 25) (Fin 75) (Some \<lparr>year = 2025, month = 3, day = 10\<rparr>),
      mk_row ''test6'' ''Printer'' (Fin 1) (Fin 80) (Fin 80) (Some \<lparr>year = 2025, month = 3, day = 25\<rparr>)]
   \<and> accepts ''03/25/2025'' (formats ! 3) = Some \<lparr>year = 2025, month = 3, day = 25\<rparr>
   \<and> accepts ''03/25/2025'' (formats ! 0) = None
   \<and> accepts ''03/25/2025'' (formats ! 1) = None
   \<and> accepts ''03/25/2025'' (formats ! 2) = None
   \<and> strptime ''1850-03-09'' (formats ! 0) = Some \<lparr>year = 1850, month = 3, day = 9\<rparr>"
proof -
  have dates:
    "parse_date (Some ''2025-03-09'') = Some \<lparr>year = 2025, month = 3, day = 9\<rparr>"
    "parse_date (Some ''Invalid Date'') = None"
    "parse_date (Some ''2025/03/10'') = Some \<lparr>year = 2025, month = 3, day = 10\<rparr>"
    "parse_date (Some ''1850-03-09'') = None"
    "parse_date None = None"
    "parse_date (Some ''03/25/2025'') = Some \<lparr>year = 2025, month = 3, day = 25\<rparr>"
    by (simp_all add: parse_date_def date_eval)
  have fmts:
    "accepts ''03/25/2025'' (formats ! 3) = Some \<lparr>year = 2025, month = 3, day = 25\<rparr>"
    "accepts ''03/25/2025'' (formats ! 0) = None"
    "accepts ''03/25/2025'' (formats ! 1) = None"
    "accepts ''03/25/2025'' (formats ! 2) = None"
    "strptime ''1850-03-09'' (formats ! 0) = Some \<lparr>year = 1850, month = 3, day = 9\<rparr>"
    by (simp_all add: accepts_def date_eval)
  have "standardize_dates
     [mk_row ''test1'' ''Laptop'' (Fin 2) (Fin 100) (Fin 200) (Some ''2025-03-09''),
      mk_row ''test2'' ''Mouse'' (Fin 1) (Fin 50) (Fin 50) (Some ''Invalid Date''),
      mk_row ''test3'' ''USB-C Cable'' (Fin 3) (Fin 25) (Fin 75) (Some ''2025/03/10''),
      mk_row ''test4'' ''Webcam'' (Fin 1) (Fin 40) (Fin 40) (Some ''1850-03-09''),
      mk_row ''test5'' ''Tablet'' (Fin 1) (Fin 90) (Fin 90) None,
      mk_row ''test6'' ''Printer'' (Fin 1) (Fin 80) (Fin 80) (Some ''03/25/2025'')]
   = [mk_row ''test1'' ''Laptop'' (Fin 2) (Fin 100) (Fin 200) (Some \<lparr>year = 2025, month = 3, day = 9\<rparr>),
      mk_row ''test3'' ''USB-C Cable'' (Fin 3) (Fin 25) (Fin 75) (Some \<lparr>year = 2025, month = 3, day = 10\<rparr>),
      mk_row ''test6'' ''Printer'' (Fin 1) (Fin 80) (Fin 80) (Some \<lparr>year = 2025, month = 3, day = 25\<rparr>)]"
    using first_accepting_format
            [THEN conjunct2, THEN conjunct2, of
               "[mk_row ''test1'' ''Laptop'' (Fin 2) (Fin 100) (Fin 200) (Some ''2025-03-09''),
                 mk_row ''test2'' ''Mouse'' (Fin 1) (Fin 50) (Fin 50) (Some ''Invalid Date''),
                 mk_row ''test3'' ''USB-C Cable'' (Fin 3) (Fin 25) (Fin 75) (Some ''2025/03/10''),
                 mk_row ''test4'' ''Webcam'' (Fin 1) (Fin 40) (Fin 40) (Some ''1850-03-09''),
                 mk_row ''test5'' ''Tablet'' (Fin 1) (Fin 90) (Fin 90) None,
                 mk_row ''test6'' ''Printer'' (Fin 1) (Fin 80) (Fin 80) (Some ''03/25/2025'')]"]
    by (simp add: mk_row_def with_date_def dates)
  with fmts show ?thesis by simp
qed

subsection \<open>The pipeline\<close>

lemma drop_duplicates_keys:
  "distinct (map key (drop_duplicates key seen df))
   \<and> set (map key (drop_duplicates key seen df)) \<inter> set seen = {}"
proof (induction df arbitrary: seen)
  case Nil
  show ?case by simp
next
  case (Cons r rs)
  show ?case
  proof (cases "key r \<in> set seen")
    case True
    with Cons.IH [of seen] show ?thesis by simp
  next
    case False
    with Cons.IH [of "key r # seen"] show ?thesis by auto
  qed
qed

lemma remove_duplicates_distinct:
  "distinct (map dedup_key (remove_duplicates df))"
  using drop_duplicates_keys [of dedup_key "[]" df] by (simp add: remove_duplicates_def)

text \<open>
  C7, as the claim states it, fails. Two records that differ only in their identifier
  and in the total price (200 and 250, for quantity 2 at the price 100) are not
  duplicates when the duplicate eliminator runs; the reconciler then sets the second
  total to 2 * 100, and the output of the pipeline holds two content-identical records.
\<close>

theorem reconciled_records_identical_counterexample:
  "clean_data
     [mk_row ''t1'' ''laptop'' (Fin 2) (Fin 100) (Fin 200) (Some ''2025-03-09''),
      mk_row ''t2'' ''laptop'' (Fin 2) (Fin 100) (Fin 250) (Some ''2025-03-09'')]
   = Inr [mk_row ''t1'' ''Laptop'' (Fin 2) (Fin 100) (Fin 200) (Some \<lparr>year = 2025, month = 3, day = 9\<rparr>),
          mk_row ''t2'' ''Laptop'' (Fin 2) (Fin 100) (Fin 200) (Some \<lparr>year = 2025, month = 3, day = 9\<rparr>)]
   \<and> content_identical
        (mk_row ''t1'' ''Laptop'' (Fin 2) (Fin 100) (Fin 200) (Some \<lparr>year = 2025, month = 3, day = 9\<rparr>))
        (mk_row ''t2'' ''Laptop'' (Fin 2) (Fin 100) (Fin 200) (Some \<lparr>year = 2025, month = 3, day = 9\<rparr>))"
proof -
  have d: "parse_date (Some ''2025-03-09'') = Some \<lparr>year = 2025, month = 3, day = 9\<rparr>"
    by (simp add: parse_date_def date_eval)
  have n: "first_rule PRODUCT_MAPPING (lower (strip ''laptop'')) = ''Laptop''"
    by (simp add: PRODUCT_MAPPING_def literal_def strip_def lower_def char_eval)
  show ?thesis
    by (simp add: clean_data_def handle_missing_values_def loc_update_def isna_def notna_def
          normalize_product_names_def normalize_product_name_def n
          standardize_dates_def with_date_def d
          remove_duplicates_def dedup_key_def
          handle_outliers_def correct_mismatches_def mismatch_def round_row_def astype_Int64_def
          rint_def floor_rat astype_int_def content_identical_def mk_row_def Let_def)
qed

text \<open>
  C7, amended. In the table that the duplicate eliminator returns, no two records at
  different positions are content-identical. (The reconciler and the rounding run on
  that table afterwards, and can make two of its records content-identical.)
\<close>

theorem no_duplicates_after_eliminator:
  "\<forall>i j. i < j \<and> j < length (remove_duplicates df) \<longrightarrow>
     \<not> content_identical (remove_duplicates df ! i) (remove_duplicates df ! j)"
proof (intro allI impI)
  fix i j
  assume a: "i < j \<and> j < length (remove_duplicates df)"
  let ?out = "remove_duplicates df"
  from a have ij: "i < length ?out" "j < length ?out" "i \<noteq> j" by auto
  have "distinct (map dedup_key ?out)" by (rule remove_duplicates_distinct)
  with ij have "map dedup_key ?out ! i \<noteq> map dedup_key ?out ! j"
    by (simp add: distinct_conv_nth del: nth_map)
  with ij have "dedup_key (?out ! i) \<noteq> dedup_key (?out ! j)" by simp
  then show "\<not> content_identical (?out ! i) (?out ! j)"
    by (simp add: dedup_key_eq)
qed

theorem no_duplicates_after_eliminator_witness:
  "(0 :: nat) < 1
   \<and> 1 < length (remove_duplicates
         [mk_row ''test1'' ''Laptop'' (Fin 2) (Fin 100) (Fin 200) (Some \<lparr>year = 2025, month = 3, day = 9\<rparr>),
          mk_row ''test2'' ''Laptop'' (Fin 2) (Fin 100) (Fin 200) (Some \<lparr>year = 2025, month = 3, day = 9\<rparr>),
          mk_row ''test3'' ''Mouse'' (Fin 1) (Fin 50) (Fin 50) (Some \<lparr>year = 2025, month = 3, day = 10\<rparr>)])
   \<and> \<not> content_identical
        (remove_duplicates
         [mk_row ''test1'' ''Laptop'' (Fin 2) (Fin 100) (Fin 200) (Some \<lparr>year = 2025, month = 3, day = 9\<rparr>),
          mk_row ''test2'' ''Laptop'' (Fin 2) (Fin 100) (Fin 200) (Some \<lparr>year = 2025, month = 3, day = 9\<rparr>),
          mk_row ''test3'' ''Mouse'' (Fin 1) (Fin 50) (Fin 50) (Some \<lparr>year = 2025, month = 3, day = 10\<rparr>)] ! 0)
        (remove_duplicates
         [mk_row ''test1'' ''Laptop'' (Fin 2) (Fin 100) (Fin 200) (Some \<lparr>year = 2025, month = 3, day = 9\<rparr>),
          mk_row ''test2'' ''Laptop'' (Fin 2) (Fin 100) (Fin 200) (Some \<lparr>year = 2025, month = 3, day = 9\<rparr>),
          mk_row ''test3'' ''Mouse'' (Fin 1) (Fin 50) (Fin 50) (Some \<lparr>year = 2025, month = 3, day = 10\<rparr>)] ! 1)"
proof -
  have e: "remove_duplicates
         [mk_row ''test1'' ''Laptop'' (Fin 2) (Fin 100) (Fin 200) (Some \<lparr>year = 2025, month = 3, day = 9\<rparr>),
          mk_row ''test2'' ''Laptop'' (Fin 2) (Fin 100) (Fin 200) (Some \<lparr>year = 2025, month = 3, day = 9\<rparr>),
          mk_row ''test3'' ''Mouse'' (Fin 1) (Fin 50) (Fin 50) (Some \<lparr>year = 2025, month = 3, day = 10\<rparr>)]
        = [mk_row ''test1'' ''Laptop'' (Fin 2) (Fin 100) (Fin 200) (Some \<lparr>year = 2025, month = 3, day = 9\<rparr>),
           mk_row ''test3'' ''Mouse'' (Fin 1) (Fin 50) (Fin 50) (Some \<lparr>year = 2025, month = 3, day = 10\<rparr>)]"
    by (simp add: remove_duplicates_def dedup_key_def mk_row_def)
  have l: "(0 :: nat) < 1 \<and> 1 < length (remove_duplicates
         [mk_row ''test1'' ''Laptop'' (Fin 2) (Fin 100) (Fin 200) (Some \<lparr>year = 2025, month = 3, day = 9\<rparr>),
          mk_row ''test2'' ''Laptop'' (Fin 2) (Fin 100) (Fin 200) (Some \<lparr>year = 2025, month = 3, day = 9\<rparr>),
          mk_row ''test3'' ''Mouse'' (Fin 1) (Fin 50) (Fin 50) (Some \<lparr>year = 2025, month = 3, day = 10\<rparr>)])"
    by (simp only: e) simp
  from no_duplicates_after_eliminator [rule_format, OF l] l show ?thesis by blast
qed

text \<open>
  C10. The claim fails on the code for a record without a product name: the
  normalizer passes the missing value to \<open>re.search\<close>, which raises \<open>TypeError\<close>, and the
  exception leaves the pass and the pipeline. (The date pass, next to it, tests for a
  missing value before it parses.) The table below has a named record, so that the
  column of names is a column of objects, and a record without a name.
\<close>

theorem missing_product_name_raises:
  "normalize_product_names
     [mk_row ''t1'' ''laptop'' (Fin 2) (Fin 100) (Fin 200) (Some ''2025-03-09''),
      (mk_row ''t2'' [] (Fin 1) (Fin 10) (Fin 10) (Some ''2025-03-10''))\<lparr>product_name := None\<rparr>]
     = Inl TypeError
   \<and> clean_data
     [mk_row ''t1'' ''laptop'' (Fin 2) (Fin 100) (Fin 200) (Some ''2025-03-09''),
      (mk_row ''t2'' [] (Fin 1) (Fin 10) (Fin 10) (Some ''2025-03-10''))\<lparr>product_name := None\<rparr>]
     = Inl TypeError"
proof -
  have n: "first_rule PRODUCT_MAPPING (lower (strip ''laptop'')) = ''Laptop''"
    by (simp add: PRODUCT_MAPPING_def literal_def strip_def lower_def char_eval)
  show ?thesis
    by (simp add: clean_data_def handle_missing_values_def loc_update_def isna_def notna_def
          normalize_product_names_def normalize_product_name_def n mk_row_def Let_def)
qed

text \<open>
  A zero divisor does not raise in the repair pass: a record with price 0, total 5 and
  no quantity leaves it with an infinite quantity. The cast of the quantities to
  64-bit integers in the reconciler then raises.
\<close>

lemma zero_price_quantity_raises:
  "handle_missing_values [mk_row ''t1'' ''mouse'' NaN (Fin 0) (Fin 5) (Some ''2025-03-09'')]
     = [mk_row ''t1'' ''mouse'' PInf (Fin 0) (Fin 5) (Some ''2025-03-09'')]
   \<and> clean_data [mk_row ''t1'' ''mouse'' NaN (Fin 0) (Fin 5) (Some ''2025-03-09'')] = Inl CastError"
proof -
  have d: "parse_date (Some ''2025-03-09'') = Some \<lparr>year = 2025, month = 3, day = 9\<rparr>"
    by (simp add: parse_date_def date_eval)
  have n: "first_rule PRODUCT_MAPPING (lower (strip ''mouse'')) = ''Mouse''"
    by (simp add: PRODUCT_MAPPING_def literal_def strip_def lower_def char_eval)
  show ?thesis
    by (simp add: clean_data_def handle_missing_values_def loc_update_def isna_def notna_def
          normalize_product_names_def normalize_product_name_def n
          standardize_dates_def with_date_def d
          remove_duplicates_def dedup_key_def
          handle_outliers_def correct_mismatches_def mismatch_def round_row_def astype_Int64_def
          rint_def floor_rat astype_int_def mk_row_def Let_def)
qed

subsection \<open>Reconciliation in float64 arithmetic\<close>

lemma find_exp_correct:
  "2 powi k \<le> x \<Longrightarrow> x < 2 powi (k + 1) \<Longrightarrow> nat \<bar>k - e\<bar> \<le> n \<Longrightarrow> find_exp n x e = k"
proof (induction n arbitrary: e)
  case 0
  then show ?case by simp
next
  case (Suc n)
  consider "e = k" | "k < e" | "e < k" by linarith
  then show ?case
  proof cases
    case 1
    with Suc.prems show ?thesis by simp
  next
    case 2
    then have "(2::rat) powi (k + 1) \<le> 2 powi e"
      by (intro power_int_increasing) auto
    with Suc.prems(2) have lt: "x < 2 powi e" by linarith
    have "nat \<bar>k - (e - 1)\<bar> \<le> n" using 2 Suc.prems(3) by linarith
    from Suc.IH [OF Suc.prems(1) Suc.prems(2) this] lt show ?thesis by simp
  next
    case 3
    then have a: "(2::rat) powi (e + 1) \<le> 2 powi k"
      by (intro power_int_increasing) auto
    with Suc.prems(1) have ge: "2 powi (e + 1) \<le> x" by linarith
    have "(2::rat) powi e \<le> 2 powi (e + 1)"
      by (intro power_int_increasing) auto
    with ge have nlt: "\<not> x < 2 powi e" by linarith
    have "nat \<bar>k - (e + 1)\<bar> \<le> n" using 3 Suc.prems(3) by linarith
    from Suc.IH [OF Suc.prems(1) Suc.prems(2) this] ge nlt show ?thesis by simp
  qed
qed

lemma float64_char:
  assumes "2 powi k \<le> \<bar>x\<bar>" "\<bar>x\<bar> < 2 powi (k + 1)" "\<bar>k\<bar> \<le> 2200"
  shows "float64 x = of_int (rint (x / 2 powi (k - 52))) * 2 powi (k - 52)"
proof -
  have "nat \<bar>k - 0\<bar> \<le> 2200" using assms(3) by simp
  from find_exp_correct [OF assms(1) assms(2) this]
  have e: "find_exp 2200 \<bar>x\<bar> 0 = k" .
  have "(0::rat) < 2 powi k" by (rule zero_less_power_int) simp
  with assms(1) have "0 < \<bar>x\<bar>" by linarith
  then have "x \<noteq> 0" by simp
  with e show ?thesis by (simp add: float64_def Let_def)
qed

lemma float64_unit:
  assumes "u = 2 powi (k - 52)" "2 ^ 52 * u \<le> \<bar>x\<bar>" "\<bar>x\<bar> < 2 ^ 53 * u" "\<bar>k\<bar> \<le> 2200"
  shows "float64 x = of_int (rint (x / u)) * u"
proof -
  have a: "(2::rat) powi k = 2 ^ 52 * u"
    unfolding assms(1) by (simp add: power_int_diff)
  have b: "(2::rat) powi (k + 1) = 2 ^ 53 * u"
    unfolding assms(1) by (simp add: power_int_diff power_int_add)
  show ?thesis
    using float64_char [of k x] assms by (simp add: a b)
qed

lemma pow2_neg: "(2::rat) powi (- numeral n) = 1 / 2 ^ numeral n"
  by (simp add: power_int_def power_one_over)


lemma rint_of_int: "rint (of_int m) = m"
  by (simp add: rint_def)

lemma float64_int:
  assumes "\<bar>n\<bar> < 2 ^ 53"
  shows "float64 (of_int n) = of_int n"
proof (cases "n = 0")
  case True
  then show ?thesis by (simp add: float64_def)
next
  case False
  then have "1 \<le> nat \<bar>n\<bar>" by simp
  from ex_power_ivl1 [OF _ this, of 2]
  obtain k where k: "2 ^ k \<le> nat \<bar>n\<bar>" "nat \<bar>n\<bar> < 2 ^ (k + 1)" by auto
  have "nat \<bar>n\<bar> < 2 ^ 53" using assms by (simp add: nat_less_iff)
  with k(1) have kk: "(2::nat) ^ k < 2 ^ 53" by linarith
  have "k < 53" by (rule power_less_imp_less_exp [of 2]) (simp, fact kk)
  then have k52: "k \<le> 52" by simp
  have lo: "(2::rat) powi (int k) \<le> \<bar>of_int n\<bar>"
  proof -
    have "int (2 ^ k) \<le> \<bar>n\<bar>" using k(1) by linarith
    then have "(of_int (int (2 ^ k)) :: rat) \<le> of_int \<bar>n\<bar>" by (simp only: of_int_le_iff)
    then show ?thesis by (simp add: power_int_def)
  qed
  have hi: "\<bar>of_int n :: rat\<bar> < 2 powi (int k + 1)"
  proof -
    have "\<bar>n\<bar> < int (2 ^ (k + 1))" using k(2) by linarith
    then have "(of_int \<bar>n\<bar> :: rat) < of_int (int (2 ^ (k + 1)))" by (simp only: of_int_less_iff)
    moreover have "(2::rat) powi (int k + 1) = 2 ^ (k + 1)"
      by (simp add: power_int_add)
    ultimately show ?thesis by simp
  qed
  have u: "(2::rat) powi (int k - 52) = 1 / 2 ^ (52 - k)"
  proof -
    have "int k - 52 = - int (52 - k)" using k52 by simp
    then show ?thesis by (simp add: power_int_def power_one_over del: of_nat_diff)
  qed
  have "float64 (of_int n) = of_int (rint (of_int n / 2 powi (int k - 52))) * 2 powi (int k - 52)"
    by (rule float64_char [OF lo hi]) (use k52 in simp)
  also have "of_int n / (2::rat) powi (int k - 52) = of_int (n * 2 ^ (52 - k))"
    by (simp add: u)
  also have "rint (of_int (n * 2 ^ (52 - k))) = n * 2 ^ (52 - k)"
    by (rule rint_of_int)
  also have "(of_int (n * 2 ^ (52 - k)) :: rat) * 2 powi (int k - 52) = of_int n"
    by (simp add: u)
  finally show ?thesis .
qed

lemma float64_numeral: "(numeral w :: int) < 2 ^ 53 \<Longrightarrow> float64 (numeral w) = numeral w"
  using float64_int [of "numeral w"] by simp

lemma float64_one: "float64 1 = 1"
  using float64_int [of 1] by simp

lemma reconcile_row_steps64:
  fixes r :: "'d row"
  defines "g1 \<equiv> (\<lambda>r::'d row. if mismatch64 r \<and> fgt (quantity r) 100 \<and> fgt (price_per_unit r) 1000
              then r\<lparr>quantity := fdiv64 (total_price r) (price_per_unit r)\<rparr> else r)"
  defines "cq \<equiv> (\<lambda>r::'d row. mismatch64 r \<and> fgt (quantity (g1 r)) 100
                     \<and> \<not> (mismatch64 r \<and> fgt (quantity r) 100 \<and> fgt (price_per_unit r) 1000))"
  defines "g2 \<equiv> (\<lambda>r::'d row. if cq r
              then (g1 r)\<lparr>quantity := fdiv64 (total_price (g1 r)) (price_per_unit (g1 r))\<rparr> else g1 r)"
  defines "cp \<equiv> (\<lambda>r::'d row. mismatch64 r \<and> fgt (price_per_unit (g2 r)) 1000
                     \<and> \<not> (mismatch64 r \<and> fgt (quantity r) 100 \<and> fgt (price_per_unit r) 1000))"
  defines "g3 \<equiv> (\<lambda>r::'d row. if cp r
              then (g2 r)\<lparr>price_per_unit := fdiv64 (total_price (g2 r)) (quantity (g2 r))\<rparr> else g2 r)"
  shows "(if mismatch64 r \<and> \<not> (cq r \<or> cp r \<or> (mismatch64 r \<and> fgt (quantity r) 100 \<and> fgt (price_per_unit r) 1000))
          then (g3 r)\<lparr>total_price := fmul64 (quantity (g3 r)) (price_per_unit (g3 r))\<rparr> else g3 r)
         = reconcile_record64 r"
  unfolding g1_def g2_def g3_def cq_def cp_def reconcile_record64_def Let_def
  by (cases "mismatch64 r"; cases "fgt (quantity r) 100"; cases "fgt (price_per_unit r) 1000")
     simp_all

lemma correct_mismatches64_rows:
  "correct_mismatches64 df = map reconcile_record64 df"
proof -
  define c where "c = (\<lambda>r::'a row. mismatch64 r \<and> fgt (quantity r) 100 \<and> fgt (price_per_unit r) 1000)"
  define g1 where "g1 = (\<lambda>r::'a row. if c r
              then r\<lparr>quantity := fdiv64 (total_price r) (price_per_unit r)\<rparr> else r)"
  define cq where "cq = (\<lambda>r::'a row. mismatch64 r \<and> fgt (quantity (g1 r)) 100 \<and> \<not> c r)"
  define g2 where "g2 = (\<lambda>r::'a row. if cq r
              then (g1 r)\<lparr>quantity := fdiv64 (total_price (g1 r)) (price_per_unit (g1 r))\<rparr> else g1 r)"
  define cp where "cp = (\<lambda>r::'a row. mismatch64 r \<and> fgt (price_per_unit (g2 r)) 1000 \<and> \<not> c r)"
  define g3 where "g3 = (\<lambda>r::'a row. if cp r
              then (g2 r)\<lparr>price_per_unit := fdiv64 (total_price (g2 r)) (quantity (g2 r))\<rparr> else g2 r)"
  define ct where "ct = (\<lambda>r::'a row. mismatch64 r \<and> \<not> (cq r \<or> cp r \<or> c r))"
  have m0: "map (\<lambda>(m, r). m \<and> fgt (quantity r) 100 \<and> fgt (price_per_unit r) 1000)
              (zip (map mismatch64 df) df) = map c df"
    by (simp add: zip2_same c_def)
  have d1: "(if list_ex (\<lambda>b. b) (map c df)
             then loc_update (map c df) (\<lambda>r. r\<lparr>quantity := fdiv64 (total_price r) (price_per_unit r)\<rparr>) df
             else df) = map g1 df"
    unfolding loc_update_if_any g1_def ..
  have mq: "map (\<lambda>(m, r, c). m \<and> fgt (quantity r) 100 \<and> \<not> c)
              (zip (map mismatch64 df) (zip (map g1 df) (map c df))) = map cq df"
    by (simp add: zip3_same cq_def)
  have d2: "loc_update (map cq df) (\<lambda>r. r\<lparr>quantity := fdiv64 (total_price r) (price_per_unit r)\<rparr>) (map g1 df)
              = map g2 df"
    unfolding loc_update_maps g2_def ..
  have mp: "map (\<lambda>(m, r, c). m \<and> fgt (price_per_unit r) 1000 \<and> \<not> c)
              (zip (map mismatch64 df) (zip (map g2 df) (map c df))) = map cp df"
    by (simp add: zip3_same cp_def)
  have d3: "loc_update (map cp df) (\<lambda>r. r\<lparr>price_per_unit := fdiv64 (total_price r) (quantity r)\<rparr>) (map g2 df)
              = map g3 df"
    unfolding loc_update_maps g3_def ..
  have mt: "map (\<lambda>(m, q, p, c). m \<and> \<not> (q \<or> p \<or> c))
              (zip (map mismatch64 df) (zip (map cq df) (zip (map cp df) (map c df)))) = map ct df"
    by (simp add: zip4_same ct_def)
  have d4: "loc_update (map ct df) (\<lambda>r. r\<lparr>total_price := fmul64 (quantity r) (price_per_unit r)\<rparr>) (map g3 df)
              = map (\<lambda>r. if ct r then (g3 r)\<lparr>total_price := fmul64 (quantity (g3 r)) (price_per_unit (g3 r))\<rparr> else g3 r) df"
    unfolding loc_update_maps ..
  have row: "(if ct r then (g3 r)\<lparr>total_price := fmul64 (quantity (g3 r)) (price_per_unit (g3 r))\<rparr> else g3 r)
               = reconcile_record64 r" for r
    using reconcile_row_steps64 [of r]
    unfolding ct_def g3_def cp_def g2_def cq_def g1_def c_def .
  show ?thesis
    unfolding correct_mismatches64_def Let_def m0 d1 mq d2 mp d3 mt d4 row ..
qed

lemma apply_rows_raises:
  "(\<exists>e. apply_rows f xs = Inl e) \<longleftrightarrow> (\<exists>x \<in> set xs. \<exists>e. f x = Inl e)"
proof (induction xs)
  case Nil
  show ?case by simp
next
  case (Cons x xs)
  show ?case
  proof (cases "f x")
    case (Inl e)
    then show ?thesis by auto
  next
    case (Inr y)
    show ?thesis
    proof (cases "apply_rows f xs")
      case (Inl e)
      with Inr Cons.IH show ?thesis by auto
    next
      case (Inr ys)
      with \<open>f x = Inr y\<close> Cons.IH show ?thesis by auto
    qed
  qed
qed

lemma handle_outliers64_rows:
  "handle_outliers64 df =
     (case apply_rows round_row64 (map reconcile_record64 df) of
        Inl e \<Rightarrow> Inl e
      | Inr out \<Rightarrow>
          Inr (out, \<lparr>found = length (filter mismatch64 df),
                     remaining = length (filter mismatch64 out),
                     removed = 0\<rparr>))"
proof (cases "apply_rows round_row64 (map reconcile_record64 df)")
  case (Inl e)
  then show ?thesis by (simp add: handle_outliers64_def correct_mismatches64_rows)
next
  case (Inr out)
  from apply_rows_length [OF Inr] have "length out = length df" by simp
  with Inr show ?thesis
    by (simp add: handle_outliers64_def correct_mismatches64_rows Let_def filter_map comp_def)
qed

lemma mismatch64_finite:
  "quantity r = Fin q \<Longrightarrow> price_per_unit r = Fin p \<Longrightarrow> total_price r = Fin t \<Longrightarrow>
     mismatch64 r \<longleftrightarrow> atol64 < \<bar>float64 (t - float64 (q * p))\<bar>"
  by (auto simp: mismatch64_def fmul64_def rnd_def)


lemma float64_zero: "float64 0 = 0"
  by (simp add: float64_def)

lemma float64_neg_numeral:
  "(numeral w :: int) < 2 ^ 53 \<Longrightarrow> float64 (- numeral w) = - numeral w"
  using float64_int [of "- numeral w"] by simp

lemma float64_cent: "float64 (101 / 100) = 4548635623644201 / 4503599627370496"
  by (subst float64_unit [of "1 / 4503599627370496" 0])
     (simp_all add: pow2_neg rint_def Let_def floor_rat)

lemma float64_tol: "float64 (1 / 100) = 5764607523034235 / 576460752303423488"
  by (subst float64_unit [of "1 / 576460752303423488" "-7"])
     (simp_all add: pow2_neg rint_def Let_def floor_rat)

lemma float64_cent_diff: "float64 (45035996273705 / 4503599627370496) = 45035996273705 / 4503599627370496"
  by (subst float64_unit [of "1 / 576460752303423488" "-7"])
     (simp_all add: pow2_neg rint_def Let_def floor_rat)

lemma float64_fifth: "float64 (1 / 5) = 3602879701896397 / 18014398509481984"
  by (subst float64_unit [of "1 / 36028797018963968" "-3"])
     (simp_all add: pow2_neg rint_def Let_def floor_rat)

lemmas float64_eval = float64_zero float64_one float64_numeral float64_neg_numeral
  float64_tol float64_cent_diff float64_fifth

lemmas reconcile64_eval = handle_outliers64_def correct_mismatches64_def loc_update_def
  mismatch64_def isclose64.simps fmul64_def fdiv64_def rnd_def atol64_def round_row64_def
  astype_Int64_def rint_def Let_def floor_rat mk_row_def


lemma float64_twenty_cent: "float64 (2001 / 100) = 5632314283980227 / 281474976710656"
  by (subst float64_unit [of "1 / 281474976710656" 4])
     (simp_all add: pow2_neg rint_def Let_def floor_rat)

lemma float64_twenty_diff: "float64 (2814749767107 / 281474976710656) = 2814749767107 / 281474976710656"
  by (subst float64_unit [of "1 / 576460752303423488" "-7"])
     (simp_all add: pow2_neg rint_def Let_def floor_rat)

lemma float64_price_scaled: "float64 (122723089845846025 / 2251799813685248) = 7670193115365377 / 140737488355328"
  by (subst float64_unit [of "1 / 140737488355328" 5])
     (simp_all add: pow2_neg rint_def Let_def floor_rat)

lemma float64_price_rounded: "float64 (11 / 20) = 2476979795053773 / 4503599627370496"
  by (subst float64_unit [of "1 / 9007199254740992" "-1"])
     (simp_all add: pow2_neg rint_def Let_def floor_rat)

text \<open>
  Two more values of the float64 model: the text \<open>20.01\<close> against 2 at the price 10
  is flagged, and the price 1.09 / 2, stored just above 0.545, rounds to 0.55.
\<close>

lemma float64_model_examples:
  "float64 (2001 / 100) = 5632314283980227 / 281474976710656"
  "mismatch64 (mk_row ''t2'' ''Mouse'' (Fin 2) (Fin 10) (Fin (5632314283980227 / 281474976710656))
                 (Some \<lparr>year = 2025, month = 3, day = 9\<rparr>))"
  "fround64 2 (Fin (4908923593833841 / 9007199254740992)) = Fin (float64 (55 / 100))"
  by (simp_all add: float64_twenty_cent reconcile64_eval float64_eval float64_twenty_diff
        float64_price_scaled float64_price_rounded)


text \<open>
  C2, as the claim states it, fails at the threshold. A record with quantity 1, price
  1.00 and total 1.01 holds as its total the float64 nearest to 1.01. The totals 1.01
  and 1 * 1.00 differ by 0.01, not by more, yet the pass flags the record and rewrites
  its total to 1: the stored total is above 1.01, and the comparison is made in
  float64.
\<close>

theorem one_cent_difference_flagged_counterexample:
  "float64 (101 / 100) = 4548635623644201 / 4503599627370496
   \<and> mismatch64 (mk_row ''t1'' ''Mouse'' (Fin 1) (Fin 1) (Fin (4548635623644201 / 4503599627370496))
                   (Some \<lparr>year = 2025, month = 3, day = 9\<rparr>))
   \<and> \<not> ((1 :: rat) / 100 < \<bar>101 / 100 - 1 * 1\<bar>)
   \<and> handle_outliers64
        [mk_row ''t1'' ''Mouse'' (Fin 1) (Fin 1) (Fin (4548635623644201 / 4503599627370496))
           (Some \<lparr>year = 2025, month = 3, day = 9\<rparr>)]
      = Inr ([mk_row ''t1'' ''Mouse'' (Fin 1) (Fin 1) (Fin 1) (Some \<lparr>year = 2025, month = 3, day = 9\<rparr>)],
             \<lparr>found = 1, remaining = 0, removed = 0\<rparr>)"
  by (simp add: float64_cent reconcile64_eval float64_eval)


text \<open>
  C2, amended. The pass flags a record exactly when \<open>np.isclose\<close> is false on its
  float64 values: for finite values, when the float64 difference of the total and the
  float64 product of quantity and price exceeds the float64 nearest to 0.01. Every
  flagged record is corrected by the first of the four rules whose condition holds
  (\<open>reconcile_record64\<close>) and every record is then rounded. The mismatches that remain
  after the rounding are counted for the report and not corrected. No row is removed:
  a table that the pass returns has one row for each row of its input, in the same
  order. The pass raises instead of returning exactly when the corrected quantity of
  some record cannot be cast to a 64-bit integer.
\<close>

theorem reconciler_float64_rules:
  "handle_outliers64 df =
     (case apply_rows round_row64 (map reconcile_record64 df) of
        Inl e \<Rightarrow> Inl e
      | Inr out \<Rightarrow>
          Inr (out, \<lparr>found = length (filter mismatch64 df),
                     remaining = length (filter mismatch64 out),
                     removed = 0\<rparr>))
   \<and> (handle_outliers64 df = Inr (out, rep) \<longrightarrow>
        length out = length df
        \<and> (\<forall>i<length df. round_row64 (reconcile_record64 (df ! i)) = Inr (out ! i))
        \<and> removed rep = 0
        \<and> remaining rep = length (filter mismatch64 out))
   \<and> ((\<exists>e. handle_outliers64 df = Inl e) \<longleftrightarrow>
        (\<exists>r \<in> set df. \<exists>e. round_row64 (reconcile_record64 r) = Inl e))
   \<and> (quantity r = Fin q \<and> price_per_unit r = Fin p \<and> total_price r = Fin t \<longrightarrow>
        (mismatch64 r \<longleftrightarrow> atol64 < \<bar>float64 (t - float64 (q * p))\<bar>))"
proof (intro conjI impI)
  show "handle_outliers64 df =
     (case apply_rows round_row64 (map reconcile_record64 df) of
        Inl e \<Rightarrow> Inl e
      | Inr out \<Rightarrow>
          Inr (out, \<lparr>found = length (filter mismatch64 df),
                     remaining = length (filter mismatch64 out),
                     removed = 0\<rparr>))"
    by (rule handle_outliers64_rows)
next
  assume a: "handle_outliers64 df = Inr (out, rep)"
  then have b: "apply_rows round_row64 (map reconcile_record64 df) = Inr out"
    and c: "rep = \<lparr>found = length (filter mismatch64 df),
                     remaining = length (filter mismatch64 out),
                     removed = 0\<rparr>"
    by (auto simp: handle_outliers64_rows split: sum.splits)
  from apply_rows_length [OF b] show "length out = length df" by simp
  show "\<forall>i<length df. round_row64 (reconcile_record64 (df ! i)) = Inr (out ! i)"
    using apply_rows_nth [OF b] by auto
  show "removed rep = 0" using c by simp
  show "remaining rep = length (filter mismatch64 out)" using c by simp
next
  have "(\<exists>e. handle_outliers64 df = Inl e)
          \<longleftrightarrow> (\<exists>e. apply_rows round_row64 (map reconcile_record64 df) = Inl e)"
    by (auto simp: handle_outliers64_rows split: sum.splits)
  also have "\<dots> \<longleftrightarrow> (\<exists>r \<in> set df. \<exists>e. round_row64 (reconcile_record64 r) = Inl e)"
    by (simp add: apply_rows_raises)
  finally show "(\<exists>e. handle_outliers64 df = Inl e) \<longleftrightarrow>
        (\<exists>r \<in> set df. \<exists>e. round_row64 (reconcile_record64 r) = Inl e)" .
next
  assume "quantity r = Fin q \<and> price_per_unit r = Fin p \<and> total_price r = Fin t"
  then show "mismatch64 r \<longleftrightarrow> atol64 < \<bar>float64 (t - float64 (q * p))\<bar>"
    by (simp add: mismatch64_finite)
qed

text \<open>
  The two examples of the specification: quantity 150, price 1500, total 300 gives the
  quantity 300 / 1500, rounded to 0, and a mismatch that remains; quantity 150, price
  10, total 1000 gives the quantity 100. A flagged record with quantity 150, price 0
  and total 5 gets an infinite quantity, and the cast raises.
\<close>

theorem reconciler_float64_rules_witness:
  "handle_outliers64
     [mk_row ''a'' ''Laptop'' (Fin 150) (Fin 1500) (Fin 300) (Some \<lparr>year = 2025, month = 3, day = 9\<rparr>),
      mk_row ''b'' ''Mouse'' (Fin 150) (Fin 10) (Fin 1000) (Some \<lparr>year = 2025, month = 3, day = 9\<rparr>)]
   = Inr ([mk_row ''a'' ''Laptop'' (Fin 0) (Fin 1500) (Fin 300) (Some \<lparr>year = 2025, month = 3, day = 9\<rparr>),
           mk_row ''b'' ''Mouse'' (Fin 100) (Fin 10) (Fin 1000) (Some \<lparr>year = 2025, month = 3, day = 9\<rparr>)],
          \<lparr>found = 2, remaining = 1, removed = 0\<rparr>)
   \<and> round_row64 (reconcile_record64
         (mk_row ''a'' ''Laptop'' (Fin 150) (Fin 1500) (Fin 300) (Some \<lparr>year = 2025, month = 3, day = 9\<rparr>)))
       = Inr (mk_row ''a'' ''Laptop'' (Fin 0) (Fin 1500) (Fin 300) (Some \<lparr>year = 2025, month = 3, day = 9\<rparr>))
   \<and> mismatch64 (mk_row ''a'' ''Laptop'' (Fin 150) (Fin 1500) (Fin 300) (Some \<lparr>year = 2025, month = 3, day = 9\<rparr>))
   \<and> atol64 < \<bar>float64 (300 - float64 (150 * 1500))\<bar>
   \<and> handle_outliers64
        [mk_row ''c'' ''Mouse'' (Fin 150) (Fin 0) (Fin 5) (Some \<lparr>year = 2025, month = 3, day = 9\<rparr>)]
      = Inl CastError
   \<and> round_row64 (reconcile_record64
         (mk_row ''c'' ''Mouse'' (Fin 150) (Fin 0) (Fin 5) (Some \<lparr>year = 2025, month = 3, day = 9\<rparr>)))
       = Inl CastError"
proof -
  let ?a = "mk_row ''a'' ''Laptop'' (Fin 150) (Fin 1500) (Fin 300) (Some \<lparr>year = 2025, month = 3, day = 9\<rparr>)"
  let ?b = "mk_row ''b'' ''Mouse'' (Fin 150) (Fin 10) (Fin 1000) (Some \<lparr>year = 2025, month = 3, day = 9\<rparr>)"
  let ?c = "mk_row ''c'' ''Mouse'' (Fin 150) (Fin 0) (Fin 5) (Some \<lparr>year = 2025, month = 3, day = 9\<rparr>)"
  let ?a' = "mk_row ''a'' ''Laptop'' (Fin 0) (Fin 1500) (Fin 300) (Some \<lparr>year = 2025, month = 3, day = 9\<rparr>)"
  let ?b' = "mk_row ''b'' ''Mouse'' (Fin 100) (Fin 10) (Fin 1000) (Some \<lparr>year = 2025, month = 3, day = 9\<rparr>)"
  let ?rep = "\<lparr>found = 2, remaining = 1, removed = 0\<rparr>"
  have e1: "handle_outliers64 [?a, ?b] = Inr ([?a', ?b'], ?rep)"
    by (simp add: reconcile64_eval float64_eval)
  have e2: "handle_outliers64 [?c] = Inl CastError"
    by (simp add: reconcile64_eval float64_eval)
  have f: "quantity ?a = Fin 150 \<and> price_per_unit ?a = Fin 1500 \<and> total_price ?a = Fin 300"
    by (simp add: mk_row_def)
  have m: "mismatch64 ?a"
    by (simp add: reconcile64_eval float64_eval)
  note t1 = reconciler_float64_rules [of "[?a, ?b]" "[?a', ?b']" ?rep ?a 150 1500 300]
  note t2 = reconciler_float64_rules [of "[?c]" "[]" ?rep ?c 150 0 5]
  from t1 e1 have "\<forall>i<length [?a, ?b]. round_row64 (reconcile_record64 ([?a, ?b] ! i)) = Inr ([?a', ?b'] ! i)"
    by blast
  then have r1: "round_row64 (reconcile_record64 ?a) = Inr ?a'"
    by (auto dest: spec [of _ 0])
  from t1 f m have c1: "atol64 < \<bar>float64 (300 - float64 (150 * 1500))\<bar>"
    by blast
  from t2 e2 have "\<exists>r \<in> set [?c]. \<exists>e. round_row64 (reconcile_record64 r) = Inl e"
    by blast
  then obtain e where "round_row64 (reconcile_record64 ?c) = Inl e" by auto
  moreover from this e2 have "e = CastError"
    by (simp add: handle_outliers64_rows)
  ultimately have r2: "round_row64 (reconcile_record64 ?c) = Inl CastError" by simp
  from e1 r1 m c1 e2 r2 show ?thesis by blast
qed

lemma float64_third_product: "float64 (17996384110972503 / 18014398509481984) = 2249548013871563 / 2251799813685248"
  by (subst float64_unit [of "1 / 9007199254740992" "-1"])
     (simp_all add: pow2_neg rint_def Let_def floor_rat)

lemma float64_third_diff: "float64 (2251799813685 / 2251799813685248) = 2251799813685 / 2251799813685248"
  by (subst float64_unit [of "1 / 4611686018427387904" "-10"])
     (simp_all add: pow2_neg rint_def Let_def floor_rat)

lemma float64_third_scaled: "float64 (149969867591437525 / 4503599627370496) = 4686558362232423 / 140737488355328"
  by (subst float64_unit [of "1 / 140737488355328" 5])
     (simp_all add: pow2_neg rint_def Let_def floor_rat)

lemma float64_third_rounded: "float64 (33 / 100) = 5944751508129055 / 18014398509481984"
  by (subst float64_unit [of "1 / 18014398509481984" "-2"])
     (simp_all add: pow2_neg rint_def Let_def floor_rat)

lemma float64_rounded_product: "float64 (17834254524387165 / 18014398509481984) = 4458563631096791 / 4503599627370496"
  by (subst float64_unit [of "1 / 9007199254740992" "-1"])
     (simp_all add: pow2_neg rint_def Let_def floor_rat)

text \<open>
  The float64 model on the records of two examples of the exact model above. The
  record with quantity 3, price 0.333 and total 1 is not flagged and leaves the pass
  with the price 0.33; the final check then counts it, since 1 - 3 * 0.33 is above the
  tolerance in float64. Of the records with quantity 2, price 100 and totals 200 and
  250, the second is flagged and leaves with the total 200.
\<close>

lemma float64_model_agrees:
  "handle_outliers64
     [mk_row ''t1'' ''Mouse'' (Fin 3) (Fin (5998794703657501 / 18014398509481984)) (Fin 1)
        (Some \<lparr>year = 2025, month = 3, day = 9\<rparr>)]
   = Inr ([mk_row ''t1'' ''Mouse'' (Fin 3) (Fin (5944751508129055 / 18014398509481984)) (Fin 1)
             (Some \<lparr>year = 2025, month = 3, day = 9\<rparr>)],
          \<lparr>found = 0, remaining = 1, removed = 0\<rparr>)"
  "handle_outliers64
     [mk_row ''t1'' ''Laptop'' (Fin 2) (Fin 100) (Fin 200) (Some \<lparr>year = 2025, month = 3, day = 9\<rparr>),
      mk_row ''t2'' ''Laptop'' (Fin 2) (Fin 100) (Fin 250) (Some \<lparr>year = 2025, month = 3, day = 9\<rparr>)]
   = Inr ([mk_row ''t1'' ''Laptop'' (Fin 2) (Fin 100) (Fin 200) (Some \<lparr>year = 2025, month = 3, day = 9\<rparr>),
           mk_row ''t2'' ''Laptop'' (Fin 2) (Fin 100) (Fin 200) (Some \<lparr>year = 2025, month = 3, day = 9\<rparr>)],
          \<lparr>found = 1, remaining = 0, removed = 0\<rparr>)"
  by (simp_all add: reconcile64_eval float64_eval float64_third_product float64_third_diff
        float64_third_scaled float64_third_rounded float64_rounded_product)

end
